theory Spec2Isabelle
  imports Main "HOL-Library.Sublist"
begin

section \<open>Data model of \<open>seq_reader_fastq_module.hpp\<close>\<close>

text \<open>
  \<open>enum class Stage { HEADER, SEQ, SEP, QUAL }\<close>. A scoped enumeration is stored in an
  \<open>int\<close>; the member \<open>stage\<close> of the module therefore holds an integer, and the two
  \<open>switch\<close> statements have a \<open>default\<close> branch for the integers that are none of
  the four enumerators. \<open>stage_code\<close> is the value of an enumerator, \<open>stage_of\<close> the
  enumerator of a value (\<open>None\<close>: the \<open>default\<close> branch).
\<close>

datatype Stage = HEADER | SEQ | SEP | QUAL

fun stage_code :: "Stage \<Rightarrow> int" where
  "stage_code HEADER = 0"
| "stage_code SEQ = 1"
| "stage_code SEP = 2"
| "stage_code QUAL = 3"

definition stage_of :: "int \<Rightarrow> Stage option" where
  "stage_of v =
     (if v = 0 then Some HEADER
      else if v = 1 then Some SEQ
      else if v = 2 then Some SEP
      else if v = 3 then Some QUAL
      else None)"

text \<open>The parser state: the members \<open>stage\<close> and \<open>tmp\<close> of \<open>SeqReaderFastqModule\<close>.\<close>

record module =
  stage :: int
  tmp :: string

text \<open>
  \<open>RecordType\<close>: the three fields the module writes. \<open>ReaderType\<close>: the buffer window
  \<open>reader.buffer\<close> with its cursors \<open>start\<close> and \<open>end\<close>, and the stream
  \<open>reader.source\<close>, a \<open>FILE*\<close>: the bytes not yet read and the two indicators that
  \<open>ferror\<close> and \<open>feof\<close> query. The stream is the bytes still to come, so a read
  meets the end of the stream but never a device error; the error indicator is whatever
  it was at entry.
\<close>

record seq_record =
  header :: string
  seq :: string
  qual :: string

record buffer =
  data :: string
  buf_start :: nat
  buf_end :: nat

record source =
  content :: string
  err_flag :: bool
  eof_flag :: bool

record reader =
  buffer :: buffer
  src :: source

text \<open>\<open>log_error(...); std::exit(EXIT_FAILURE)\<close>: the process ends, nothing is returned.\<close>

datatype error = InvalidState

type_synonym outcome = "error + bool \<times> module \<times> reader \<times> seq_record"

abbreviation NL :: char where
  "NL \<equiv> CHR 0x0A"

section \<open>The C stream probes\<close>

definition ferror :: "source \<Rightarrow> int" where
  "ferror s = (if err_flag s then 1 else 0)"

definition feof :: "source \<Rightarrow> int" where
  "feof s = (if eof_flag s then 1 else 0)"

text \<open>\<open>fgetc\<close>: the next byte, or \<open>EOF\<close> (\<open>None\<close>) with the end-of-file indicator set.\<close>

definition fgetc :: "source \<Rightarrow> char option \<times> source" where
  "fgetc s =
     (case content s of
        [] \<Rightarrow> (None, s\<lparr>eof_flag := True\<rparr>)
      | c # cs \<Rightarrow> (Some c, s\<lparr>content := cs\<rparr>))"

text \<open>\<open>ungetc\<close>: the byte is pushed back and the end-of-file indicator cleared.\<close>

definition ungetc :: "char \<Rightarrow> source \<Rightarrow> source" where
  "ungetc c s = s\<lparr>content := c # content s, eof_flag := False\<rparr>"

section \<open>The reader's line primitives\<close>

text \<open>The unread bytes of the buffer window \<open>[start, end)\<close>.\<close>

definition unread :: "buffer \<Rightarrow> string" where
  "unread b = take (buf_end b - buf_start b) (drop (buf_start b) (data b))"

text \<open>
  Modelled from the spec: \<open>ReaderType::readline_buffer_append\<close> is a member of the reader
  class, which is not part of the module's header. Spec, section 6: it "copies bytes up to
  and excluding the next line terminator into destination, advances the window's cursor
  past the terminator, returns true; returns false and performs no mutation if no
  terminator exists before the window's end". The result is the returned flag, the
  destination and the buffer.
\<close>

definition readline_buffer_append :: "string \<Rightarrow> buffer \<Rightarrow> bool \<times> string \<times> buffer" where
  "readline_buffer_append dest b =
     (let w = unread b;
          line = takeWhile (\<lambda>c. c \<noteq> NL) w
      in if length line < length w
         then (True, dest @ line, b\<lparr>buf_start := buf_start b + length line + 1\<rparr>)
         else (False, dest, b))"

text \<open>
  Modelled from the spec: the stream line read that the reader's \<open>readline_file\<close> and
  \<open>readline_file_append\<close> perform; the reader class is not part of the module's header.
  Spec, sections 2 and 3: one newline-terminated line is taken, its content "terminator
  excluded". The line is the bytes before the next terminator, which is consumed. What
  happens when the stream ends first is left to the reader by the spec; here what is left
  of the stream is the line and the end-of-file indicator is set.
\<close>

definition stream_line :: "source \<Rightarrow> string \<times> source" where
  "stream_line s =
     (let line = takeWhile (\<lambda>c. c \<noteq> NL) (content s)
      in case drop (length line) (content s) of
           [] \<Rightarrow> (line, s\<lparr>content := [], eof_flag := True\<rparr>)
         | c # rest \<Rightarrow> (line, s\<lparr>content := rest\<rparr>))"

text \<open>
  Modelled from the spec: \<open>ReaderType::readline_file\<close> is a member of the reader class,
  which is not part of the module's header. Spec, section 6: the stream line read
  "(destination, stream) -> void" "always attempts to copy a full line"; section 3: a field
  holds "exactly one line's content (terminator excluded)". The destination is replaced by
  the line. The result is the destination and the stream.
\<close>

definition readline_file :: "string \<Rightarrow> source \<Rightarrow> string \<times> source" where
  "readline_file dest s = stream_line s"

text \<open>
  Modelled from the spec: \<open>ReaderType::readline_file_append\<close> is a member of the reader
  class, which is not part of the module's header. It is the stream line read of section 6
  that appends: section 4.2, the strategy that uses it is there "to append the tail of a
  record whose head was already captured".
\<close>

definition readline_file_append :: "string \<Rightarrow> source \<Rightarrow> string \<times> source" where
  "readline_file_append dest s = (case stream_line s of (line, s') \<Rightarrow> (dest @ line, s'))"

text \<open>
  Modelled from the spec: \<open>ReaderType::file_at_end\<close> is a member of the reader class,
  which is not part of the module's header. Spec, section 4.3: "the stream is already at
  its end".
\<close>

definition file_at_end :: "source \<Rightarrow> bool" where
  "file_at_end s = (content s = [])"

section \<open>\<open>read_buffer\<close>\<close>

text \<open>
  The \<open>switch\<close> of \<open>read_buffer\<close> falls through from each case to the next; each
  function below is one case label together with everything after it.
\<close>

definition buffer_qual :: "module \<Rightarrow> reader \<Rightarrow> seq_record \<Rightarrow> outcome" where
  "buffer_qual m r rc =
     (case readline_buffer_append (qual rc) (buffer r) of
        (ok, q, b) \<Rightarrow>
          if \<not> ok then Inr (False, m, r\<lparr>buffer := b\<rparr>, rc\<lparr>qual := q\<rparr>)
          else Inr (True, m\<lparr>stage := stage_code HEADER\<rparr>, r\<lparr>buffer := b\<rparr>, rc\<lparr>qual := q\<rparr>))"

definition buffer_sep :: "module \<Rightarrow> reader \<Rightarrow> seq_record \<Rightarrow> outcome" where
  "buffer_sep m r rc =
     (case readline_buffer_append (tmp m) (buffer r) of
        (ok, t, b) \<Rightarrow>
          if \<not> ok then Inr (False, m\<lparr>tmp := t\<rparr>, r\<lparr>buffer := b\<rparr>, rc)
          else buffer_qual (m\<lparr>stage := stage_code QUAL, tmp := []\<rparr>) (r\<lparr>buffer := b\<rparr>) rc)"

definition buffer_seq :: "module \<Rightarrow> reader \<Rightarrow> seq_record \<Rightarrow> outcome" where
  "buffer_seq m r rc =
     (case readline_buffer_append (seq rc) (buffer r) of
        (ok, s, b) \<Rightarrow>
          if \<not> ok then Inr (False, m, r\<lparr>buffer := b\<rparr>, rc\<lparr>seq := s\<rparr>)
          else buffer_sep (m\<lparr>stage := stage_code SEP\<rparr>) (r\<lparr>buffer := b\<rparr>) (rc\<lparr>seq := s\<rparr>))"

definition buffer_header :: "module \<Rightarrow> reader \<Rightarrow> seq_record \<Rightarrow> outcome" where
  "buffer_header m r rc =
     (case readline_buffer_append (header rc) (buffer r) of
        (ok, h, b) \<Rightarrow>
          if \<not> ok then Inr (False, m, r\<lparr>buffer := b\<rparr>, rc\<lparr>header := h\<rparr>)
          else buffer_seq (m\<lparr>stage := stage_code SEQ\<rparr>) (r\<lparr>buffer := b\<rparr>) (rc\<lparr>header := h\<rparr>))"

definition buffer_switch :: "module \<Rightarrow> reader \<Rightarrow> seq_record \<Rightarrow> outcome" where
  "buffer_switch m r rc =
     (case stage_of (stage m) of
        Some HEADER \<Rightarrow> buffer_header m r rc
      | Some SEQ \<Rightarrow> buffer_seq m r rc
      | Some SEP \<Rightarrow> buffer_sep m r rc
      | Some QUAL \<Rightarrow> buffer_qual m r rc
      | None \<Rightarrow> Inl InvalidState)"

definition read_buffer :: "module \<Rightarrow> reader \<Rightarrow> seq_record \<Rightarrow> outcome" where
  "read_buffer m r rc =
     (let rc1 = rc\<lparr>header := [], seq := [], qual := []\<rparr>
      in if buf_start (buffer r) < buf_end (buffer r)
         then buffer_switch m r rc1
         else Inr (False, m, r, rc1))"

section \<open>\<open>read_transition\<close>\<close>

definition transition_qual :: "module \<Rightarrow> reader \<Rightarrow> seq_record \<Rightarrow> outcome" where
  "transition_qual m r rc =
     (case readline_file_append (qual rc) (src r) of
        (q, s) \<Rightarrow> Inr (True, m\<lparr>stage := stage_code HEADER\<rparr>, r\<lparr>src := s\<rparr>, rc\<lparr>qual := q\<rparr>))"

definition transition_sep :: "module \<Rightarrow> reader \<Rightarrow> seq_record \<Rightarrow> outcome" where
  "transition_sep m r rc =
     (case readline_file_append (tmp m) (src r) of
        (t, s) \<Rightarrow> transition_qual (m\<lparr>stage := stage_code QUAL, tmp := []\<rparr>) (r\<lparr>src := s\<rparr>) rc)"

definition transition_seq :: "module \<Rightarrow> reader \<Rightarrow> seq_record \<Rightarrow> outcome" where
  "transition_seq m r rc =
     (case readline_file_append (seq rc) (src r) of
        (q, s) \<Rightarrow> transition_sep (m\<lparr>stage := stage_code SEP\<rparr>) (r\<lparr>src := s\<rparr>) (rc\<lparr>seq := q\<rparr>))"

definition transition_header :: "module \<Rightarrow> reader \<Rightarrow> seq_record \<Rightarrow> outcome" where
  "transition_header m r rc =
     (case readline_file_append (header rc) (src r) of
        (h, s) \<Rightarrow> transition_seq (m\<lparr>stage := stage_code SEQ\<rparr>) (r\<lparr>src := s\<rparr>) (rc\<lparr>header := h\<rparr>))"

definition transition_switch :: "module \<Rightarrow> reader \<Rightarrow> seq_record \<Rightarrow> outcome" where
  "transition_switch m r rc =
     (case stage_of (stage m) of
        Some HEADER \<Rightarrow> transition_header m r rc
      | Some SEQ \<Rightarrow> transition_seq m r rc
      | Some SEP \<Rightarrow> transition_sep m r rc
      | Some QUAL \<Rightarrow> transition_qual m r rc
      | None \<Rightarrow> Inl InvalidState)"

definition read_transition :: "module \<Rightarrow> reader \<Rightarrow> seq_record \<Rightarrow> outcome" where
  "read_transition m r rc =
     (if ferror (src r) = 0 \<and> feof (src r) = 0
      then (case fgetc (src r) of
              (None, s) \<Rightarrow> Inr (False, m, r\<lparr>src := s\<rparr>, rc)
            | (Some p, s) \<Rightarrow> transition_switch m (r\<lparr>src := ungetc p s\<rparr>) rc)
      else Inr (False, m, r, rc))"

section \<open>\<open>read_file\<close>\<close>

definition read_file :: "module \<Rightarrow> reader \<Rightarrow> seq_record \<Rightarrow> outcome" where
  "read_file m r rc =
     (if \<not> file_at_end (src r)
      then (case readline_file (header rc) (src r) of
              (h, s1) \<Rightarrow>
                (case readline_file (seq rc) s1 of
                   (q, s2) \<Rightarrow>
                     (case readline_file (tmp m) s2 of
                        (t, s3) \<Rightarrow>
                          (case readline_file (qual rc) s3 of
                             (ql, s4) \<Rightarrow>
                               Inr (True, m\<lparr>tmp := t\<rparr>, r\<lparr>src := s4\<rparr>,
                                    rc\<lparr>header := h, seq := q, qual := ql\<rparr>)))))
      else Inr (False, m, r, rc))"

section \<open>Notions used in the statements\<close>

text \<open>A line together with its terminator, as it lies in a buffer or a stream.\<close>

definition ln :: "string \<Rightarrow> string" where
  "ln s = s @ [NL]"

text \<open>The number of line terminators in a run of bytes.\<close>

definition nlines :: "string \<Rightarrow> nat" where
  "nlines s = length (filter (\<lambda>c. c = NL) s)"

text \<open>The buffer, and the reader, after \<open>n\<close> more bytes of the window were consumed.\<close>

definition advance :: "nat \<Rightarrow> buffer \<Rightarrow> buffer" where
  "advance n b = b\<lparr>buf_start := buf_start b + n\<rparr>"

definition consume :: "nat \<Rightarrow> reader \<Rightarrow> reader" where
  "consume n r = r\<lparr>buffer := advance n (buffer r)\<rparr>"

text \<open>A buffer whose window is the whole of \<open>s\<close>, and a fresh stream holding \<open>s\<close>.\<close>

definition mk_buffer :: "string \<Rightarrow> buffer" where
  "mk_buffer s = \<lparr>data = s, buf_start = 0, buf_end = length s\<rparr>"

definition mk_source :: "string \<Rightarrow> source" where
  "mk_source s = \<lparr>content = s, err_flag = False, eof_flag = False\<rparr>"

text \<open>
  The cyclic order of the stages as the spec states it (section 3: "advances strictly in
  this cyclic order"), and the position of a stage in a record.
\<close>

fun next_stage :: "Stage \<Rightarrow> Stage" where
  "next_stage HEADER = SEQ"
| "next_stage SEQ = SEP"
| "next_stage SEP = QUAL"
| "next_stage QUAL = HEADER"

fun stage_index :: "Stage \<Rightarrow> nat" where
  "stage_index HEADER = 0"
| "stage_index SEQ = 1"
| "stage_index SEP = 2"
| "stage_index QUAL = 3"

text \<open>
  \<open>n\<close> line reads from the stream, one after the other.
\<close>

definition stream_reads :: "nat \<Rightarrow> source \<Rightarrow> source" where
  "stream_reads n s = ((\<lambda>s. snd (stream_line s)) ^^ n) s"

text \<open>
  A run of the buffered strategy that entered at stage \<open>s\<close> and read \<open>n\<close> lines from
  the window: what it returns and what it leaves behind.
\<close>

definition buffer_run :: "Stage \<Rightarrow> module \<Rightarrow> reader \<Rightarrow> outcome \<Rightarrow> nat \<Rightarrow> bool" where
  "buffer_run s m r out n \<longleftrightarrow>
     (\<exists>ok m' r' rc'. out = Inr (ok, m', r', rc') \<and>
        nlines (unread (buffer r)) = nlines (unread (buffer r')) + n \<and>
        stage m' = stage_code ((next_stage ^^ n) s) \<and>
        stage_index s + n \<le> 4 \<and> (ok \<longleftrightarrow> stage_index s + n = 4) \<and>
        (\<not> ok \<longrightarrow> NL \<notin> set (unread (buffer r'))) \<and>
        tmp m' = (if s = QUAL \<or> stage_index s + n \<le> 2 then tmp m else []) \<and>
        src r' = src r)"

section \<open>The buffered line primitive\<close>

lemma takeWhile_line: "NL \<notin> set l \<Longrightarrow> takeWhile (\<lambda>c. c \<noteq> NL) (l @ NL # rest) = l"
  by (induction l) auto

lemma unread_nonempty: "unread b \<noteq> [] \<Longrightarrow> buf_start b < buf_end b"
  by (cases "buf_start b < buf_end b") (simp_all add: unread_def)

lemma unread_advance: "unread (advance n b) = drop n (unread b)"
proof -
  have "unread (advance n b) = take (buf_end b - buf_start b - n) (drop n (drop (buf_start b) (data b)))"
    by (simp add: unread_def advance_def add.commute)
  also have "\<dots> = drop n (unread b)"
    by (simp add: unread_def drop_take)
  finally show ?thesis .
qed

lemma advance_advance: "advance k (advance n b) = advance (n + k) b"
  by (simp add: advance_def add.assoc)

lemma consume_consume: "consume k (consume n r) = consume (n + k) r"
  by (simp add: consume_def advance_advance)

lemma buffer_consume [simp]: "buffer (consume n r) = advance n (buffer r)"
  by (simp add: consume_def)

lemma src_consume [simp]: "src (consume n r) = src r"
  by (simp add: consume_def)

lemma rba_ln:
  assumes "unread b = ln l @ rest" "NL \<notin> set l"
  shows "readline_buffer_append d b = (True, d @ l, advance (length (ln l)) b)"
  using assms by (simp add: readline_buffer_append_def Let_def takeWhile_line ln_def advance_def)

lemma unread_ln:
  assumes "unread b = ln l @ rest"
  shows "unread (advance (length (ln l)) b) = rest"
  using assms by (simp add: unread_advance)

lemma rba_fail:
  assumes "NL \<notin> set (unread b)"
  shows "readline_buffer_append d b = (False, d, b)"
proof -
  have "\<forall>c\<in>set (unread b). c \<noteq> NL"
    using assms by auto
  then have "takeWhile (\<lambda>c. c \<noteq> NL) (unread b) = unread b"
    by (rule takeWhile_eq_all_conv[THEN iffD2])
  then have "length (takeWhile (\<lambda>c. c \<noteq> NL) (unread b)) = length (unread b)"
    by (rule arg_cong)
  then have "\<not> length (takeWhile (\<lambda>c. c \<noteq> NL) (unread b)) < length (unread b)"
    by linarith
  then show ?thesis
    unfolding readline_buffer_append_def Let_def by (rule if_not_P)
qed

lemma buffer_qual_line:
  assumes "unread (buffer r) = ln l4 @ rest" "NL \<notin> set l4"
  shows "buffer_qual m r rc =
           Inr (True, m\<lparr>stage := stage_code HEADER\<rparr>, consume (length (ln l4)) r,
                rc\<lparr>qual := qual rc @ l4\<rparr>)"
  using rba_ln[OF assms] by (simp add: buffer_qual_def consume_def)

lemma buffer_sep_line:
  assumes "unread (buffer r) = ln l3 @ rest" "NL \<notin> set l3"
  shows "buffer_sep m r rc =
           buffer_qual (m\<lparr>stage := stage_code QUAL, tmp := []\<rparr>) (consume (length (ln l3)) r) rc"
  using rba_ln[OF assms] by (simp add: buffer_sep_def consume_def)

lemma buffer_seq_line:
  assumes "unread (buffer r) = ln l2 @ rest" "NL \<notin> set l2"
  shows "buffer_seq m r rc =
           buffer_sep (m\<lparr>stage := stage_code SEP\<rparr>) (consume (length (ln l2)) r)
             (rc\<lparr>seq := seq rc @ l2\<rparr>)"
  using rba_ln[OF assms] by (simp add: buffer_seq_def consume_def)

lemma buffer_header_line:
  assumes "unread (buffer r) = ln l1 @ rest" "NL \<notin> set l1"
  shows "buffer_header m r rc =
           buffer_seq (m\<lparr>stage := stage_code SEQ\<rparr>) (consume (length (ln l1)) r)
             (rc\<lparr>header := header rc @ l1\<rparr>)"
  using rba_ln[OF assms] by (simp add: buffer_header_def consume_def)

section \<open>The stream line primitive\<close>

lemma stream_line_ln:
  assumes "content s = ln l @ rest" "NL \<notin> set l"
  shows "stream_line s = (l, s\<lparr>content := rest\<rparr>)"
  using assms by (simp add: stream_line_def Let_def ln_def takeWhile_line)

lemma read_file_lines:
  assumes "NL \<notin> set l1" "NL \<notin> set l2" "NL \<notin> set l3" "NL \<notin> set l4"
    and "content (src r) = ln l1 @ ln l2 @ ln l3 @ ln l4 @ rest"
  shows "read_file m r rc =
           Inr (True, m\<lparr>tmp := l3\<rparr>, r\<lparr>src := (src r)\<lparr>content := rest\<rparr>\<rparr>,
                \<lparr>header = l1, seq = l2, qual = l4\<rparr>)"
proof -
  let ?s0 = "src r"
  let ?s1 = "?s0\<lparr>content := ln l2 @ ln l3 @ ln l4 @ rest\<rparr>"
  let ?s2 = "?s0\<lparr>content := ln l3 @ ln l4 @ rest\<rparr>"
  let ?s3 = "?s0\<lparr>content := ln l4 @ rest\<rparr>"
  let ?s4 = "?s0\<lparr>content := rest\<rparr>"
  have ne: "content ?s0 \<noteq> []" using assms(5) by (simp add: ln_def)
  have e1: "stream_line ?s0 = (l1, ?s1)"
    using assms stream_line_ln[of ?s0 l1] by simp
  have e2: "stream_line ?s1 = (l2, ?s2)"
    using assms stream_line_ln[of ?s1 l2 "ln l3 @ ln l4 @ rest"] by simp
  have e3: "stream_line ?s2 = (l3, ?s3)"
    using assms stream_line_ln[of ?s2 l3 "ln l4 @ rest"] by simp
  have e4: "stream_line ?s3 = (l4, ?s4)"
    using assms stream_line_ln[of ?s3 l4 rest] by simp
  show ?thesis
    using ne by (simp add: read_file_def file_at_end_def readline_file_def e1 e2 e3 e4)
qed

section \<open>Runs of the buffered strategy\<close>

lemma rba_cases:
  obtains (line) l rest where "unread b = l @ NL # rest" "NL \<notin> set l"
      "\<And>d. readline_buffer_append d b = (True, d @ l, advance (length l + 1) b)"
      "unread (advance (length l + 1) b) = rest"
  | (stall) "NL \<notin> set (unread b)" "\<And>d. readline_buffer_append d b = (False, d, b)"
proof (cases "NL \<in> set (unread b)")
  case True
  then obtain l rest where u: "unread b = l @ NL # rest" "NL \<notin> set l"
    by (auto dest: split_list_first)
  then have u': "unread b = ln l @ rest" by (simp add: ln_def)
  have "readline_buffer_append d b = (True, d @ l, advance (length l + 1) b)" for d
    using rba_ln[OF u' u(2), of d] by (simp add: ln_def)
  moreover have "unread (advance (length l + 1) b) = rest"
    using unread_ln[OF u'] by (simp add: ln_def)
  ultimately show ?thesis using u line by blast
next
  case False
  then show ?thesis using rba_fail stall by blast
qed

lemma nlines_line: "NL \<notin> set l \<Longrightarrow> nlines (l @ NL # rest) = nlines rest + 1"
  by (induction l) (auto simp: nlines_def)

lemma run_stall:
  assumes "stage m = stage_code s" "NL \<notin> set (unread (buffer r))"
  shows "buffer_run s m r (Inr (False, m, r, rc')) 0"
  using assms by (cases s) (auto simp: buffer_run_def)

lemma run_step:
  assumes run: "buffer_run (next_stage s) m1 (consume (length l + 1) r) out n"
    and u: "unread (buffer r) = l @ NL # rest" "NL \<notin> set l"
      "unread (advance (length l + 1) (buffer r)) = rest"
    and s: "s \<noteq> QUAL"
    and t: "tmp m1 = (if s = SEP then [] else tmp m)"
  shows "buffer_run s m r out (Suc n)"
proof -
  from run obtain ok m' r' rc' where o: "out = Inr (ok, m', r', rc')"
    and nl: "nlines rest = nlines (unread (buffer r')) + n"
    and st: "stage m' = stage_code ((next_stage ^^ n) (next_stage s))"
    and ix: "stage_index (next_stage s) + n \<le> 4"
      "ok \<longleftrightarrow> stage_index (next_stage s) + n = 4"
    and stall: "\<not> ok \<longrightarrow> NL \<notin> set (unread (buffer r'))"
    and tm: "tmp m' = (if next_stage s = QUAL \<or> stage_index (next_stage s) + n \<le> 2 then tmp m1 else [])"
    and sr: "src r' = src r"
    using u(3) by (auto simp: buffer_run_def)
  have si: "stage_index (next_stage s) = Suc (stage_index s)"
    using s by (cases s) simp_all
  have "nlines (unread (buffer r)) = nlines (unread (buffer r')) + Suc n"
    using nl u by (simp add: nlines_line)
  moreover have "stage m' = stage_code ((next_stage ^^ Suc n) s)"
    using st by (simp add: funpow_swap1)
  moreover have "tmp m' = (if s = QUAL \<or> stage_index s + Suc n \<le> 2 then tmp m else [])"
    using tm t s by (cases s) (auto)
  ultimately show ?thesis
    using o ix stall sr si by (simp add: buffer_run_def)
qed

lemma run_qual:
  assumes "stage m = stage_code QUAL"
  shows "\<exists>n. buffer_run QUAL m r (buffer_qual m r rc) n"
proof (cases "buffer r" rule: rba_cases)
  case (line l rest)
  have "buffer_run QUAL m r (buffer_qual m r rc) 1"
    using line assms by (auto simp: buffer_qual_def buffer_run_def nlines_line consume_def)
  then show ?thesis ..
next
  case stall
  have "buffer_qual m r rc = Inr (False, m, r, rc)"
    by (simp add: buffer_qual_def stall(2))
  then show ?thesis using run_stall[OF assms stall(1)] by auto
qed

lemma run_sep:
  assumes "stage m = stage_code SEP"
  shows "\<exists>n. buffer_run SEP m r (buffer_sep m r rc) n"
proof (cases "buffer r" rule: rba_cases)
  case (line l rest)
  let ?m1 = "m\<lparr>stage := stage_code QUAL, tmp := []\<rparr>"
  have e: "buffer_sep m r rc = buffer_qual ?m1 (consume (length l + 1) r) rc"
    by (simp add: buffer_sep_def line(3) consume_def)
  obtain n where "buffer_run (next_stage SEP) ?m1 (consume (length l + 1) r) (buffer_sep m r rc) n"
    using run_qual[of ?m1 "consume (length l + 1) r" rc] e by auto
  then have "buffer_run SEP m r (buffer_sep m r rc) (Suc n)"
    by (rule run_step) (use line in auto)
  then show ?thesis ..
next
  case stall
  have "buffer_sep m r rc = Inr (False, m, r, rc)"
    by (simp add: buffer_sep_def stall(2))
  then show ?thesis using run_stall[OF assms stall(1)] by auto
qed

lemma run_seq:
  assumes "stage m = stage_code SEQ"
  shows "\<exists>n. buffer_run SEQ m r (buffer_seq m r rc) n"
proof (cases "buffer r" rule: rba_cases)
  case (line l rest)
  let ?m1 = "m\<lparr>stage := stage_code SEP\<rparr>"
  have e: "buffer_seq m r rc = buffer_sep ?m1 (consume (length l + 1) r) (rc\<lparr>seq := seq rc @ l\<rparr>)"
    by (simp add: buffer_seq_def line(3) consume_def)
  obtain n where "buffer_run (next_stage SEQ) ?m1 (consume (length l + 1) r) (buffer_seq m r rc) n"
    using run_sep[of ?m1 "consume (length l + 1) r" "rc\<lparr>seq := seq rc @ l\<rparr>"] e by auto
  then have "buffer_run SEQ m r (buffer_seq m r rc) (Suc n)"
    by (rule run_step) (use line in auto)
  then show ?thesis ..
next
  case stall
  have "buffer_seq m r rc = Inr (False, m, r, rc)"
    by (simp add: buffer_seq_def stall(2))
  then show ?thesis using run_stall[OF assms stall(1)] by auto
qed

lemma run_header:
  assumes "stage m = stage_code HEADER"
  shows "\<exists>n. buffer_run HEADER m r (buffer_header m r rc) n"
proof (cases "buffer r" rule: rba_cases)
  case (line l rest)
  let ?m1 = "m\<lparr>stage := stage_code SEQ\<rparr>"
  have e: "buffer_header m r rc = buffer_seq ?m1 (consume (length l + 1) r) (rc\<lparr>header := header rc @ l\<rparr>)"
    by (simp add: buffer_header_def line(3) consume_def)
  obtain n where "buffer_run (next_stage HEADER) ?m1 (consume (length l + 1) r) (buffer_header m r rc) n"
    using run_seq[of ?m1 "consume (length l + 1) r" "rc\<lparr>header := header rc @ l\<rparr>"] e by auto
  then have "buffer_run HEADER m r (buffer_header m r rc) (Suc n)"
    by (rule run_step) (use line in auto)
  then show ?thesis ..
next
  case stall
  have "buffer_header m r rc = Inr (False, m, r, rc)"
    by (simp add: buffer_header_def stall(2))
  then show ?thesis using run_stall[OF assms stall(1)] by auto
qed

lemma stage_of_code [simp]: "stage_of (stage_code s) = Some s"
  by (cases s) (simp_all add: stage_of_def)

lemma stage_of_Some: "stage_of v = Some s \<Longrightarrow> v = stage_code s"
  by (auto simp: stage_of_def split: if_splits)

lemma run_switch:
  assumes "stage_of (stage m) = Some s"
  shows "\<exists>n. buffer_run s m r (buffer_switch m r rc) n"
proof -
  have c: "stage m = stage_code s" using assms by (rule stage_of_Some)
  show ?thesis
  proof (cases s)
    case HEADER
    then show ?thesis using run_header[of m r rc] c assms by (simp add: buffer_switch_def)
  next
    case SEQ
    then show ?thesis using run_seq[of m r rc] c assms by (simp add: buffer_switch_def)
  next
    case SEP
    then show ?thesis using run_sep[of m r rc] c assms by (simp add: buffer_switch_def)
  next
    case QUAL
    then show ?thesis using run_qual[of m r rc] c assms by (simp add: buffer_switch_def)
  qed
qed

lemma read_buffer_empty_window:
  assumes "\<not> buf_start (buffer r) < buf_end (buffer r)"
  shows "read_buffer m r rc = Inr (False, m, r, \<lparr>header = [], seq = [], qual = []\<rparr>)"
  using assms by (simp add: read_buffer_def)

lemma read_buffer_stalled:
  assumes "NL \<notin> set (unread (buffer r))" "stage_of (stage m) = Some s"
  shows "read_buffer m r rc = Inr (False, m, r, \<lparr>header = [], seq = [], qual = []\<rparr>)"
proof (cases "buf_start (buffer r) < buf_end (buffer r)")
  case True
  have f: "readline_buffer_append d (buffer r) = (False, d, buffer r)" for d
    using assms(1) by (rule rba_fail)
  show ?thesis
    using True assms(2)
    by (cases s)
      (simp_all add: read_buffer_def buffer_switch_def buffer_header_def buffer_seq_def
        buffer_sep_def buffer_qual_def f)
next
  case False
  then show ?thesis by (rule read_buffer_empty_window)
qed

lemma read_buffer_run:
  assumes "stage_of (stage m) = Some s"
  shows "\<exists>n. buffer_run s m r (read_buffer m r rc) n"
proof (cases "buf_start (buffer r) < buf_end (buffer r)")
  case True
  then show ?thesis
    using run_switch[OF assms, of r "rc\<lparr>header := [], seq := [], qual := []\<rparr>"]
    by (simp add: read_buffer_def)
next
  case False
  then have u: "unread (buffer r) = []" by (simp add: unread_def)
  have "buffer_run s m r (read_buffer m r rc) 0"
    using run_stall[OF stage_of_Some[OF assms], of r] u
    by (simp add: read_buffer_empty_window[OF False])
  then show ?thesis ..
qed

section \<open>Runs of the boundary-transition strategy\<close>

lemma stage_index_next: "stage_index (next_stage s) = Suc (stage_index s) mod 4"
  by (cases s) simp_all

lemma stage_index_funpow: "stage_index ((next_stage ^^ n) s) = (stage_index s + n) mod 4"
proof (induction n)
  case 0
  show ?case by (cases s) simp_all
next
  case (Suc n)
  show ?case by (simp add: stage_index_next Suc mod_Suc_eq)
qed

lemma stage_index_0: "stage_index s = 0 \<Longrightarrow> s = HEADER"
  by (cases s) simp_all

lemma read_transition_proceed:
  assumes "ferror (src r) = 0" "feof (src r) = 0" "content (src r) \<noteq> []"
  shows "read_transition m r rc = transition_switch m r rc"
proof -
  obtain p cs where c: "content (src r) = p # cs"
    using assms(3) by (cases "content (src r)") auto
  have e: "eof_flag (src r) = False"
    using assms(2) by (simp add: feof_def split: if_splits)
  have "r\<lparr>src := ungetc p ((src r)\<lparr>content := cs\<rparr>)\<rparr> = r"
    using c e by (simp add: ungetc_def)
  then show ?thesis
    using assms by (simp add: read_transition_def fgetc_def c)
qed

lemma read_transition_stop:
  assumes "\<not> (ferror (src r) = 0 \<and> feof (src r) = 0 \<and> content (src r) \<noteq> [])"
  shows "\<exists>r'. read_transition m r rc = Inr (False, m, r', rc) \<and> buffer r' = buffer r \<and>
            content (src r') = content (src r) \<and> err_flag (src r') = err_flag (src r)"
proof (cases "ferror (src r) = 0 \<and> feof (src r) = 0")
  case True
  with assms have "content (src r) = []" by simp
  then show ?thesis using True by (simp add: read_transition_def fgetc_def)
next
  case False
  then show ?thesis by (auto simp: read_transition_def)
qed

lemma transition_switch_run:
  assumes "stage_of (stage m) = Some s"
  shows "\<exists>rc'. transition_switch m r rc =
            Inr (True, m\<lparr>stage := stage_code HEADER, tmp := (if s = QUAL then tmp m else [])\<rparr>,
                 r\<lparr>src := stream_reads (4 - stage_index s) (src r)\<rparr>, rc') \<and>
          prefix (header rc) (header rc') \<and> prefix (seq rc) (seq rc') \<and>
          prefix (qual rc) (qual rc') \<and>
          (s \<noteq> HEADER \<longrightarrow> header rc' = header rc) \<and>
          (s = SEP \<or> s = QUAL \<longrightarrow> seq rc' = seq rc)"
proof -
  have m: "m\<lparr>stage := stage_code HEADER, tmp := tmp m\<rparr> = m\<lparr>stage := stage_code HEADER\<rparr>"
    by simp
  show ?thesis
    using assms
    by (cases s)
      (auto simp: transition_switch_def transition_header_def transition_seq_def
        transition_sep_def transition_qual_def readline_file_append_def stream_reads_def
        eval_nat_numeral split: prod.splits)
qed

lemma transition_switch_invalid:
  "stage_of (stage m) = None \<Longrightarrow> transition_switch m r rc = Inl InvalidState"
  by (simp add: transition_switch_def)

lemma read_transition_fields:
  assumes "read_transition m r rc = Inr (ok, m', r', rc')"
  shows "prefix (header rc) (header rc') \<and> prefix (seq rc) (seq rc') \<and>
         prefix (qual rc) (qual rc') \<and>
         (stage m \<noteq> stage_code HEADER \<longrightarrow> header rc' = header rc) \<and>
         (stage m = stage_code SEP \<or> stage m = stage_code QUAL \<longrightarrow> seq rc' = seq rc)"
proof (cases "ferror (src r) = 0 \<and> feof (src r) = 0 \<and> content (src r) \<noteq> []")
  case True
  then have e: "transition_switch m r rc = Inr (ok, m', r', rc')"
    using assms by (simp add: read_transition_proceed)
  then obtain s where s: "stage_of (stage m) = Some s"
    by (cases "stage_of (stage m)") (simp_all add: transition_switch_invalid)
  have c: "stage m = stage_code s" using s by (rule stage_of_Some)
  show ?thesis
    using transition_switch_run[OF s, of r rc] e c by (cases s) auto
next
  case False
  then have "rc' = rc"
    using read_transition_stop[OF False, of m rc] assms by auto
  then show ?thesis by simp
qed

lemma read_buffer_invalid:
  assumes "stage_of (stage m) = None" "buf_start (buffer r) < buf_end (buffer r)"
  shows "read_buffer m r rc = Inl InvalidState"
  using assms by (simp add: read_buffer_def buffer_switch_def)

lemma nlines_none: "NL \<notin> set xs \<Longrightarrow> nlines xs = 0"
  by (induction xs) (auto simp: nlines_def)

lemma read_buffer_count:
  assumes s: "stage_of (stage m) = Some s"
  shows "\<exists>ok m' r' rc' n.
        read_buffer m r rc = Inr (ok, m', r', rc') \<and>
        n = min (4 - stage_index s) (nlines (unread (buffer r))) \<and>
        nlines (unread (buffer r)) = nlines (unread (buffer r')) + n \<and>
        stage_of (stage m') = Some ((next_stage ^^ n) s) \<and>
        (ok \<longleftrightarrow> stage_index s + n = 4) \<and>
        (ok \<longrightarrow> stage m' = stage_code HEADER) \<and>
        (\<not> ok \<longrightarrow> stage_index ((next_stage ^^ n) s) = stage_index s + n)"
proof -
  obtain n where "buffer_run s m r (read_buffer m r rc) n"
    using read_buffer_run[OF s] by blast
  then obtain ok m' r' rc' where o: "read_buffer m r rc = Inr (ok, m', r', rc')"
    and f: "nlines (unread (buffer r)) = nlines (unread (buffer r')) + n"
      "stage m' = stage_code ((next_stage ^^ n) s)"
      "stage_index s + n \<le> 4" "ok \<longleftrightarrow> stage_index s + n = 4"
    and stall: "\<not> ok \<longrightarrow> NL \<notin> set (unread (buffer r'))"
    by (auto simp: buffer_run_def)
  have ix: "stage_index ((next_stage ^^ n) s) = (stage_index s + n) mod 4"
    by (rule stage_index_funpow)
  have mn: "n = min (4 - stage_index s) (nlines (unread (buffer r)))"
  proof (cases ok)
    case True
    then show ?thesis using f by simp
  next
    case False
    then have "nlines (unread (buffer r')) = 0"
      using stall by (simp add: nlines_none)
    then show ?thesis using f False by simp
  qed
  have h: "stage m' = stage_code HEADER" if ok
  proof -
    have "stage_index ((next_stage ^^ n) s) = 0" using ix f(4) that by simp
    then have "(next_stage ^^ n) s = HEADER" by (rule stage_index_0)
    then show ?thesis using f(2) by simp
  qed
  have nw: "stage_index ((next_stage ^^ n) s) = stage_index s + n" if "\<not> ok"
    using ix f(3,4) that by simp
  have so: "stage_of (stage m') = Some ((next_stage ^^ n) s)"
    using f(2) by simp
  show ?thesis
    using o mn f(1) so f(4) h nw by blast
qed

lemma read_transition_count:
  assumes s: "stage_of (stage m) = Some s"
    and p: "ferror (src r) = 0 \<and> feof (src r) = 0 \<and> content (src r) \<noteq> []"
  shows "\<exists>m2 r2 rc2. read_transition m r rc = Inr (True, m2, r2, rc2) \<and>
           stage_of (stage m2) = Some ((next_stage ^^ (4 - stage_index s)) s) \<and>
           stage m2 = stage_code HEADER \<and>
           src r2 = stream_reads (4 - stage_index s) (src r)"
proof -
  have e: "read_transition m r rc = transition_switch m r rc"
    using p by (intro read_transition_proceed) simp_all
  have w: "(next_stage ^^ (4 - stage_index s)) s = HEADER"
    by (cases s) (simp_all add: eval_nat_numeral)
  obtain rc' where t: "transition_switch m r rc =
        Inr (True, m\<lparr>stage := stage_code HEADER, tmp := (if s = QUAL then tmp m else [])\<rparr>,
             r\<lparr>src := stream_reads (4 - stage_index s) (src r)\<rparr>, rc')"
    using transition_switch_run[OF s, of r rc] by blast
  let ?m2 = "m\<lparr>stage := stage_code HEADER, tmp := (if s = QUAL then tmp m else [])\<rparr>"
  let ?r2 = "r\<lparr>src := stream_reads (4 - stage_index s) (src r)\<rparr>"
  have "read_transition m r rc = Inr (True, ?m2, ?r2, rc')" using e t by simp
  moreover have "stage_of (stage ?m2) = Some ((next_stage ^^ (4 - stage_index s)) s)"
    using w by (simp add: stage_of_def)
  moreover have "stage ?m2 = stage_code HEADER" by simp
  moreover have "src ?r2 = stream_reads (4 - stage_index s) (src r)" by simp
  ultimately show ?thesis by blast
qed

section \<open>Stalls at the end of the window and stream lines\<close>

lemma buffer_seq_end:
  "unread (buffer r) = [] \<Longrightarrow> buffer_seq m r rc = Inr (False, m, r, rc)"
  by (simp add: buffer_seq_def rba_fail)

lemma buffer_sep_end:
  "unread (buffer r) = [] \<Longrightarrow> buffer_sep m r rc = Inr (False, m, r, rc)"
  by (simp add: buffer_sep_def rba_fail)

lemma buffer_qual_end:
  "unread (buffer r) = [] \<Longrightarrow> buffer_qual m r rc = Inr (False, m, r, rc)"
  by (simp add: buffer_qual_def rba_fail)

lemma transition_qual_line:
  assumes "content (src r) = ln l4 @ rest" "NL \<notin> set l4"
  shows "transition_qual m r rc =
           Inr (True, m\<lparr>stage := stage_code HEADER\<rparr>, r\<lparr>src := (src r)\<lparr>content := rest\<rparr>\<rparr>,
                rc\<lparr>qual := qual rc @ l4\<rparr>)"
  using stream_line_ln[OF assms] by (simp add: transition_qual_def readline_file_append_def)

lemma transition_sep_line:
  assumes "content (src r) = ln l3 @ rest" "NL \<notin> set l3"
  shows "transition_sep m r rc =
           transition_qual (m\<lparr>stage := stage_code QUAL, tmp := []\<rparr>)
             (r\<lparr>src := (src r)\<lparr>content := rest\<rparr>\<rparr>) rc"
  using stream_line_ln[OF assms] by (simp add: transition_sep_def readline_file_append_def)

lemma transition_seq_line:
  assumes "content (src r) = ln l2 @ rest" "NL \<notin> set l2"
  shows "transition_seq m r rc =
           transition_sep (m\<lparr>stage := stage_code SEP\<rparr>)
             (r\<lparr>src := (src r)\<lparr>content := rest\<rparr>\<rparr>) (rc\<lparr>seq := seq rc @ l2\<rparr>)"
  using stream_line_ln[OF assms] by (simp add: transition_seq_def readline_file_append_def)

lemma read_buffer_header_entry:
  assumes "stage m = stage_code HEADER" "unread (buffer r) \<noteq> []"
  shows "read_buffer m r rc = buffer_header m r \<lparr>header = [], seq = [], qual = []\<rparr>"
proof -
  have c: "rc\<lparr>header := [], seq := [], qual := []\<rparr> = \<lparr>header = [], seq = [], qual = []\<rparr>"
    by (cases rc) simp
  have "buf_start (buffer r) < buf_end (buffer r)"
    using assms(2) by (rule unread_nonempty)
  then show ?thesis
    unfolding read_buffer_def Let_def c using assms(1) by (simp add: buffer_switch_def stage_of_def)
qed

lemma read_transition_entry:
  assumes "ferror (src r) = 0" "feof (src r) = 0" "content (src r) = ln l @ rest"
  shows "read_transition m r rc = transition_switch m r rc"
  using assms by (intro read_transition_proceed) (simp_all add: ln_def)

lemma split_after_header:
  assumes nl: "NL \<notin> set l1" "NL \<notin> set l2" "NL \<notin> set l3" "NL \<notin> set l4"
    and st: "stage m = stage_code HEADER"
    and buf: "unread (buffer r) = ln l1"
    and str: "content (src r) = ln l2 @ ln l3 @ ln l4 @ rest"
    and fl: "ferror (src r) = 0" "feof (src r) = 0"
  shows "read_buffer m r rc =
           Inr (False, m\<lparr>stage := stage_code SEQ\<rparr>, consume (length (ln l1)) r,
                \<lparr>header = l1, seq = [], qual = []\<rparr>)"
    and "read_transition (m\<lparr>stage := stage_code SEQ\<rparr>) (consume (length (ln l1)) r)
             \<lparr>header = l1, seq = [], qual = []\<rparr> =
           Inr (True, m\<lparr>stage := stage_code HEADER, tmp := []\<rparr>,
                (consume (length (ln l1)) r)\<lparr>src := (src r)\<lparr>content := rest\<rparr>\<rparr>,
                \<lparr>header = l1, seq = l2, qual = l4\<rparr>)"
proof -
  let ?r1 = "consume (length (ln l1)) r"
  have b0: "unread (buffer r) = ln l1 @ []" using buf by simp
  have u1: "unread (buffer ?r1) = []" using unread_ln[OF b0] by simp
  have "read_buffer m r rc = buffer_header m r \<lparr>header = [], seq = [], qual = []\<rparr>"
    using st buf by (intro read_buffer_header_entry) (simp_all add: ln_def)
  also have "\<dots> = buffer_seq (m\<lparr>stage := stage_code SEQ\<rparr>) ?r1 \<lparr>header = l1, seq = [], qual = []\<rparr>"
    by (simp add: buffer_header_line[OF b0 nl(1)])
  also have "\<dots> = Inr (False, m\<lparr>stage := stage_code SEQ\<rparr>, ?r1, \<lparr>header = l1, seq = [], qual = []\<rparr>)"
    by (rule buffer_seq_end[OF u1])
  finally show "read_buffer m r rc =
           Inr (False, m\<lparr>stage := stage_code SEQ\<rparr>, ?r1, \<lparr>header = l1, seq = [], qual = []\<rparr>)" .
  let ?m1 = "m\<lparr>stage := stage_code SEQ\<rparr>"
  let ?rc1 = "\<lparr>header = l1, seq = [], qual = []\<rparr>"
  have c1: "content (src ?r1) = ln l2 @ ln l3 @ ln l4 @ rest" using str by simp
  have "read_transition ?m1 ?r1 ?rc1 = transition_switch ?m1 ?r1 ?rc1"
    using fl c1 by (intro read_transition_entry) simp_all
  also have "\<dots> = transition_seq ?m1 ?r1 ?rc1"
    by (simp add: transition_switch_def stage_of_def)
  also have "\<dots> = transition_sep (?m1\<lparr>stage := stage_code SEP\<rparr>)
        (?r1\<lparr>src := (src ?r1)\<lparr>content := ln l3 @ ln l4 @ rest\<rparr>\<rparr>) (?rc1\<lparr>seq := seq ?rc1 @ l2\<rparr>)"
    by (rule transition_seq_line[OF c1 nl(2)])
  also have "\<dots> = transition_qual (?m1\<lparr>stage := stage_code QUAL, tmp := []\<rparr>)
        (?r1\<lparr>src := (src ?r1)\<lparr>content := ln l4 @ rest\<rparr>\<rparr>) (?rc1\<lparr>seq := l2\<rparr>)"
    using transition_sep_line[of "?r1\<lparr>src := (src ?r1)\<lparr>content := ln l3 @ ln l4 @ rest\<rparr>\<rparr>" l3 "ln l4 @ rest"
        "?m1\<lparr>stage := stage_code SEP\<rparr>" "?rc1\<lparr>seq := seq ?rc1 @ l2\<rparr>"] nl(3)
    by simp
  also have "\<dots> = Inr (True, m\<lparr>stage := stage_code HEADER, tmp := []\<rparr>,
                ?r1\<lparr>src := (src r)\<lparr>content := rest\<rparr>\<rparr>, \<lparr>header = l1, seq = l2, qual = l4\<rparr>)"
    using transition_qual_line[of "?r1\<lparr>src := (src ?r1)\<lparr>content := ln l4 @ rest\<rparr>\<rparr>" l4 rest
        "?m1\<lparr>stage := stage_code QUAL, tmp := []\<rparr>" "?rc1\<lparr>seq := l2\<rparr>"] nl(4)
    by simp
  finally show "read_transition ?m1 ?r1 ?rc1 =
           Inr (True, m\<lparr>stage := stage_code HEADER, tmp := []\<rparr>,
                ?r1\<lparr>src := (src r)\<lparr>content := rest\<rparr>\<rparr>, \<lparr>header = l1, seq = l2, qual = l4\<rparr>)" .
qed

lemma split_after_seq:
  assumes nl: "NL \<notin> set l1" "NL \<notin> set l2" "NL \<notin> set l3" "NL \<notin> set l4"
    and st: "stage m = stage_code HEADER"
    and buf: "unread (buffer r) = ln l1 @ ln l2"
    and str: "content (src r) = ln l3 @ ln l4 @ rest"
    and fl: "ferror (src r) = 0" "feof (src r) = 0"
  shows "read_buffer m r rc =
           Inr (False, m\<lparr>stage := stage_code SEP\<rparr>, consume (length (ln l1 @ ln l2)) r,
                \<lparr>header = l1, seq = l2, qual = []\<rparr>)"
    and "read_transition (m\<lparr>stage := stage_code SEP\<rparr>) (consume (length (ln l1 @ ln l2)) r)
             \<lparr>header = l1, seq = l2, qual = []\<rparr> =
           Inr (True, m\<lparr>stage := stage_code HEADER, tmp := []\<rparr>,
                (consume (length (ln l1 @ ln l2)) r)\<lparr>src := (src r)\<lparr>content := rest\<rparr>\<rparr>,
                \<lparr>header = l1, seq = l2, qual = l4\<rparr>)"
proof -
  let ?r1 = "consume (length (ln l1)) r"
  let ?r2 = "consume (length (ln l2)) ?r1"
  let ?R = "consume (length (ln l1 @ ln l2)) r"
  have R: "?r2 = ?R" by (simp add: consume_consume)
  have u1: "unread (buffer ?r1) = ln l2 @ []" using unread_ln[OF buf] by simp
  have u2: "unread (buffer ?r2) = []" using unread_ln[OF u1] by simp
  have "read_buffer m r rc = buffer_header m r \<lparr>header = [], seq = [], qual = []\<rparr>"
    using st buf by (intro read_buffer_header_entry) (simp_all add: ln_def)
  also have "\<dots> = buffer_seq (m\<lparr>stage := stage_code SEQ\<rparr>) ?r1 \<lparr>header = l1, seq = [], qual = []\<rparr>"
    by (simp add: buffer_header_line[OF buf nl(1)])
  also have "\<dots> = buffer_sep (m\<lparr>stage := stage_code SEP\<rparr>) ?r2 \<lparr>header = l1, seq = l2, qual = []\<rparr>"
    by (simp add: buffer_seq_line[OF u1 nl(2)])
  also have "\<dots> = Inr (False, m\<lparr>stage := stage_code SEP\<rparr>, ?r2, \<lparr>header = l1, seq = l2, qual = []\<rparr>)"
    by (rule buffer_sep_end[OF u2])
  finally show "read_buffer m r rc =
           Inr (False, m\<lparr>stage := stage_code SEP\<rparr>, ?R, \<lparr>header = l1, seq = l2, qual = []\<rparr>)"
    unfolding R .
  let ?m1 = "m\<lparr>stage := stage_code SEP\<rparr>"
  let ?rc1 = "\<lparr>header = l1, seq = l2, qual = []\<rparr>"
  have c1: "content (src ?R) = ln l3 @ ln l4 @ rest" using str by simp
  have "read_transition ?m1 ?R ?rc1 = transition_switch ?m1 ?R ?rc1"
    using fl c1 by (intro read_transition_entry) simp_all
  also have "\<dots> = transition_sep ?m1 ?R ?rc1"
    by (simp add: transition_switch_def stage_of_def)
  also have "\<dots> = transition_qual (?m1\<lparr>stage := stage_code QUAL, tmp := []\<rparr>)
        (?R\<lparr>src := (src ?R)\<lparr>content := ln l4 @ rest\<rparr>\<rparr>) ?rc1"
    by (rule transition_sep_line[OF c1 nl(3)])
  also have "\<dots> = Inr (True, m\<lparr>stage := stage_code HEADER, tmp := []\<rparr>,
                ?R\<lparr>src := (src r)\<lparr>content := rest\<rparr>\<rparr>, \<lparr>header = l1, seq = l2, qual = l4\<rparr>)"
    using transition_qual_line[of "?R\<lparr>src := (src ?R)\<lparr>content := ln l4 @ rest\<rparr>\<rparr>" l4 rest
        "?m1\<lparr>stage := stage_code QUAL, tmp := []\<rparr>" ?rc1] nl(4)
    by simp
  finally show "read_transition ?m1 ?R ?rc1 =
           Inr (True, m\<lparr>stage := stage_code HEADER, tmp := []\<rparr>,
                ?R\<lparr>src := (src r)\<lparr>content := rest\<rparr>\<rparr>, \<lparr>header = l1, seq = l2, qual = l4\<rparr>)" .
qed

lemma split_after_sep:
  assumes nl: "NL \<notin> set l1" "NL \<notin> set l2" "NL \<notin> set l3" "NL \<notin> set l4"
    and st: "stage m = stage_code HEADER"
    and buf: "unread (buffer r) = ln l1 @ ln l2 @ ln l3"
    and str: "content (src r) = ln l4 @ rest"
    and fl: "ferror (src r) = 0" "feof (src r) = 0"
  shows "read_buffer m r rc =
           Inr (False, m\<lparr>stage := stage_code QUAL, tmp := []\<rparr>,
                consume (length (ln l1 @ ln l2 @ ln l3)) r,
                \<lparr>header = l1, seq = l2, qual = []\<rparr>)"
    and "read_transition (m\<lparr>stage := stage_code QUAL, tmp := []\<rparr>)
             (consume (length (ln l1 @ ln l2 @ ln l3)) r)
             \<lparr>header = l1, seq = l2, qual = []\<rparr> =
           Inr (True, m\<lparr>stage := stage_code HEADER, tmp := []\<rparr>,
                (consume (length (ln l1 @ ln l2 @ ln l3)) r)\<lparr>src := (src r)\<lparr>content := rest\<rparr>\<rparr>,
                \<lparr>header = l1, seq = l2, qual = l4\<rparr>)"
proof -
  let ?r1 = "consume (length (ln l1)) r"
  let ?r2 = "consume (length (ln l2)) ?r1"
  let ?r3 = "consume (length (ln l3)) ?r2"
  let ?R = "consume (length (ln l1 @ ln l2 @ ln l3)) r"
  have R: "?r3 = ?R" by (simp add: consume_consume add.assoc)
  have u1: "unread (buffer ?r1) = ln l2 @ ln l3" using unread_ln[OF buf] by simp
  have u2: "unread (buffer ?r2) = ln l3 @ []" using unread_ln[OF u1] by simp
  have u3: "unread (buffer ?r3) = []" using unread_ln[OF u2] by simp
  have "read_buffer m r rc = buffer_header m r \<lparr>header = [], seq = [], qual = []\<rparr>"
    using st buf by (intro read_buffer_header_entry) (simp_all add: ln_def)
  also have "\<dots> = buffer_seq (m\<lparr>stage := stage_code SEQ\<rparr>) ?r1 \<lparr>header = l1, seq = [], qual = []\<rparr>"
    by (simp add: buffer_header_line[OF buf nl(1)])
  also have "\<dots> = buffer_sep (m\<lparr>stage := stage_code SEP\<rparr>) ?r2 \<lparr>header = l1, seq = l2, qual = []\<rparr>"
    by (simp add: buffer_seq_line[OF u1 nl(2)])
  also have "\<dots> = buffer_qual (m\<lparr>stage := stage_code QUAL, tmp := []\<rparr>) ?r3 \<lparr>header = l1, seq = l2, qual = []\<rparr>"
    by (simp add: buffer_sep_line[OF u2 nl(3)])
  also have "\<dots> = Inr (False, m\<lparr>stage := stage_code QUAL, tmp := []\<rparr>, ?r3, \<lparr>header = l1, seq = l2, qual = []\<rparr>)"
    by (rule buffer_qual_end[OF u3])
  finally show "read_buffer m r rc =
           Inr (False, m\<lparr>stage := stage_code QUAL, tmp := []\<rparr>, ?R, \<lparr>header = l1, seq = l2, qual = []\<rparr>)"
    unfolding R .
  let ?m1 = "m\<lparr>stage := stage_code QUAL, tmp := []\<rparr>"
  let ?rc1 = "\<lparr>header = l1, seq = l2, qual = []\<rparr>"
  have c1: "content (src ?R) = ln l4 @ rest" using str by simp
  have "read_transition ?m1 ?R ?rc1 = transition_switch ?m1 ?R ?rc1"
    using fl c1 by (intro read_transition_entry) simp_all
  also have "\<dots> = transition_qual ?m1 ?R ?rc1"
    by (simp add: transition_switch_def stage_of_def)
  also have "\<dots> = Inr (True, m\<lparr>stage := stage_code HEADER, tmp := []\<rparr>,
                ?R\<lparr>src := (src r)\<lparr>content := rest\<rparr>\<rparr>, \<lparr>header = l1, seq = l2, qual = l4\<rparr>)"
    using transition_qual_line[OF c1 nl(4), of ?m1 ?rc1] by simp
  finally show "read_transition ?m1 ?R ?rc1 =
           Inr (True, m\<lparr>stage := stage_code HEADER, tmp := []\<rparr>,
                ?R\<lparr>src := (src r)\<lparr>content := rest\<rparr>\<rparr>, \<lparr>header = l1, seq = l2, qual = l4\<rparr>)" .
qed

section \<open>Record fields across a resumption\<close>

text \<open>
  C1, as stated, fails: \<open>read_buffer\<close> entered at stage Sequence with the header
  \<open>@r1\<close> already captured returns with an empty header, because the three
  \<open>clear()\<close> calls at its entry are not guarded by the stage.
\<close>

theorem read_buffer_resumption_counterexample:
  "read_buffer \<lparr>stage = stage_code SEQ, tmp = []\<rparr>
     \<lparr>buffer = mk_buffer (ln ''ACGT'' @ ln ''+'' @ ln ''!!!!''), src = mk_source []\<rparr>
     \<lparr>header = ''@r1'', seq = [], qual = []\<rparr>
   = Inr (True, \<lparr>stage = stage_code HEADER, tmp = []\<rparr>,
          \<lparr>buffer = \<lparr>data = ln ''ACGT'' @ ln ''+'' @ ln ''!!!!'', buf_start = 12, buf_end = 12\<rparr>,
             src = mk_source []\<rparr>,
          \<lparr>header = [], seq = ''ACGT'', qual = ''!!!!''\<rparr>)"
  by (simp add: read_buffer_def buffer_switch_def stage_of_def buffer_seq_def buffer_sep_def
      buffer_qual_def readline_buffer_append_def unread_def mk_buffer_def ln_def Let_def)

text \<open>
  C1, amended: \<open>read_buffer\<close> clears header, seq and qual at entry at every stage, so its
  outcome is the one it has on an empty record. \<open>read_transition\<close> clears no field: after
  any call every field begins with what it held at entry, and the fields of the stages
  before the entry stage (the header from Sequence on, the sequence from Separator on) are
  exactly what they were.
\<close>

theorem resumption_fields:
  "read_buffer m r rc = read_buffer m r \<lparr>header = [], seq = [], qual = []\<rparr> \<and>
   (read_transition m r rc = Inr (ok, m', r', rc') \<longrightarrow>
      prefix (header rc) (header rc') \<and> prefix (seq rc) (seq rc') \<and>
      prefix (qual rc) (qual rc') \<and>
      (stage m \<noteq> stage_code HEADER \<longrightarrow> header rc' = header rc) \<and>
      (stage m = stage_code SEP \<or> stage m = stage_code QUAL \<longrightarrow> seq rc' = seq rc))"
proof (rule conjI)
  have c: "rc\<lparr>header := [], seq := [], qual := []\<rparr> = \<lparr>header = [], seq = [], qual = []\<rparr>"
    by (cases rc) simp
  show "read_buffer m r rc = read_buffer m r \<lparr>header = [], seq = [], qual = []\<rparr>"
    unfolding read_buffer_def Let_def c by simp
next
  show "read_transition m r rc = Inr (ok, m', r', rc') \<longrightarrow>
      prefix (header rc) (header rc') \<and> prefix (seq rc) (seq rc') \<and>
      prefix (qual rc) (qual rc') \<and>
      (stage m \<noteq> stage_code HEADER \<longrightarrow> header rc' = header rc) \<and>
      (stage m = stage_code SEP \<or> stage m = stage_code QUAL \<longrightarrow> seq rc' = seq rc)"
    by (rule impI) (rule read_transition_fields)
qed

theorem resumption_fields_witness:
  "read_transition \<lparr>stage = stage_code SEQ, tmp = []\<rparr>
     \<lparr>buffer = mk_buffer [], src = mk_source (ln ''ACGT'' @ ln ''+'' @ ln ''!!!!'')\<rparr>
     \<lparr>header = ''@r1'', seq = [], qual = []\<rparr>
   = Inr (True, \<lparr>stage = stage_code HEADER, tmp = []\<rparr>,
          \<lparr>buffer = mk_buffer [], src = mk_source []\<rparr>,
          \<lparr>header = ''@r1'', seq = ''ACGT'', qual = ''!!!!''\<rparr>) \<and>
   stage \<lparr>stage = stage_code SEQ, tmp = []\<rparr> \<noteq> stage_code HEADER \<and>
   prefix ''@r1'' (header \<lparr>header = ''@r1'', seq = ''ACGT'', qual = ''!!!!''\<rparr>) \<and>
   header \<lparr>header = ''@r1'', seq = ''ACGT'', qual = ''!!!!''\<rparr> = ''@r1'' \<and>
   read_transition \<lparr>stage = stage_code QUAL, tmp = []\<rparr>
     \<lparr>buffer = mk_buffer [], src = mk_source (ln ''!!!!'')\<rparr>
     \<lparr>header = ''@r1'', seq = ''ACGT'', qual = []\<rparr>
   = Inr (True, \<lparr>stage = stage_code HEADER, tmp = []\<rparr>,
          \<lparr>buffer = mk_buffer [], src = mk_source []\<rparr>,
          \<lparr>header = ''@r1'', seq = ''ACGT'', qual = ''!!!!''\<rparr>) \<and>
   (stage \<lparr>stage = stage_code QUAL, tmp = []\<rparr> = stage_code SEP \<or>
    stage \<lparr>stage = stage_code QUAL, tmp = []\<rparr> = stage_code QUAL) \<and>
   seq \<lparr>header = ''@r1'', seq = ''ACGT'', qual = ''!!!!''\<rparr> = seq \<lparr>header = ''@r1'', seq = ''ACGT'', qual = []\<rparr>"
proof -
  have e: "read_transition \<lparr>stage = stage_code SEQ, tmp = []\<rparr>
     \<lparr>buffer = mk_buffer [], src = mk_source (ln ''ACGT'' @ ln ''+'' @ ln ''!!!!'')\<rparr>
     \<lparr>header = ''@r1'', seq = [], qual = []\<rparr>
   = Inr (True, \<lparr>stage = stage_code HEADER, tmp = []\<rparr>,
          \<lparr>buffer = mk_buffer [], src = mk_source []\<rparr>,
          \<lparr>header = ''@r1'', seq = ''ACGT'', qual = ''!!!!''\<rparr>)"
    by (simp add: read_transition_def ferror_def feof_def fgetc_def ungetc_def
        transition_switch_def stage_of_def transition_seq_def transition_sep_def
        transition_qual_def readline_file_append_def stream_line_def mk_source_def ln_def)
  have q: "read_transition \<lparr>stage = stage_code QUAL, tmp = []\<rparr>
     \<lparr>buffer = mk_buffer [], src = mk_source (ln ''!!!!'')\<rparr>
     \<lparr>header = ''@r1'', seq = ''ACGT'', qual = []\<rparr>
   = Inr (True, \<lparr>stage = stage_code HEADER, tmp = []\<rparr>,
          \<lparr>buffer = mk_buffer [], src = mk_source []\<rparr>,
          \<lparr>header = ''@r1'', seq = ''ACGT'', qual = ''!!!!''\<rparr>)"
    by (simp add: read_transition_def ferror_def feof_def fgetc_def ungetc_def
        transition_switch_def stage_of_def transition_qual_def readline_file_append_def
        stream_line_def mk_source_def ln_def)
  show ?thesis
    using e q
      resumption_fields [of "\<lparr>stage = stage_code SEQ, tmp = []\<rparr>"
        "\<lparr>buffer = mk_buffer [], src = mk_source (ln ''ACGT'' @ ln ''+'' @ ln ''!!!!'')\<rparr>"
        "\<lparr>header = ''@r1'', seq = [], qual = []\<rparr>" True "\<lparr>stage = stage_code HEADER, tmp = []\<rparr>"
        "\<lparr>buffer = mk_buffer [], src = mk_source []\<rparr>"
        "\<lparr>header = ''@r1'', seq = ''ACGT'', qual = ''!!!!''\<rparr>"]
      resumption_fields [of "\<lparr>stage = stage_code QUAL, tmp = []\<rparr>"
        "\<lparr>buffer = mk_buffer [], src = mk_source (ln ''!!!!'')\<rparr>"
        "\<lparr>header = ''@r1'', seq = ''ACGT'', qual = []\<rparr>" True "\<lparr>stage = stage_code HEADER, tmp = []\<rparr>"
        "\<lparr>buffer = mk_buffer [], src = mk_source []\<rparr>"
        "\<lparr>header = ''@r1'', seq = ''ACGT'', qual = ''!!!!''\<rparr>"]
    by simp
qed

section \<open>Incomplete calls of the buffered strategy\<close>

text \<open>
  C2, as stated, fails. The state below is the one a first call leaves on a window that
  held the header line only: stage Sequence, header \<open>@r1\<close>, no unread byte. A second call
  returns false and leaves stage, scratch and buffer alone, but the record is mutated: the
  header captured by the first call is cleared.
\<close>

theorem read_buffer_empty_window_counterexample:
  "\<not> buf_start \<lparr>data = ln ''@r1'', buf_start = 4, buf_end = 4\<rparr>
       < buf_end \<lparr>data = ln ''@r1'', buf_start = 4, buf_end = 4\<rparr> \<and>
   read_buffer \<lparr>stage = stage_code SEQ, tmp = []\<rparr>
     \<lparr>buffer = \<lparr>data = ln ''@r1'', buf_start = 4, buf_end = 4\<rparr>, src = mk_source []\<rparr>
     \<lparr>header = ''@r1'', seq = [], qual = []\<rparr>
   = Inr (False, \<lparr>stage = stage_code SEQ, tmp = []\<rparr>,
          \<lparr>buffer = \<lparr>data = ln ''@r1'', buf_start = 4, buf_end = 4\<rparr>, src = mk_source []\<rparr>,
          \<lparr>header = [], seq = [], qual = []\<rparr>)"
  by (simp add: read_buffer_def)

text \<open>
  C2, amended: with no unread byte in the window \<open>read_buffer\<close> returns false with the
  stage, the scratch accumulator and the reader (so the buffer cursor) unchanged and the
  three record fields empty. After any call that returned false, a second call on the state
  it left returns false again, leaves stage, scratch and reader exactly as the first call
  left them, and leaves the three record fields empty.
\<close>

theorem read_buffer_incompletion:
  "(\<not> buf_start (buffer r) < buf_end (buffer r) \<longrightarrow>
      read_buffer m r rc = Inr (False, m, r, \<lparr>header = [], seq = [], qual = []\<rparr>)) \<and>
   (read_buffer m r rc = Inr (False, m', r', rc') \<longrightarrow>
      read_buffer m' r' rc' = Inr (False, m', r', \<lparr>header = [], seq = [], qual = []\<rparr>))"
proof (intro conjI impI)
  assume "\<not> buf_start (buffer r) < buf_end (buffer r)"
  then show "read_buffer m r rc = Inr (False, m, r, \<lparr>header = [], seq = [], qual = []\<rparr>)"
    by (rule read_buffer_empty_window)
next
  assume a: "read_buffer m r rc = Inr (False, m', r', rc')"
  show "read_buffer m' r' rc' = Inr (False, m', r', \<lparr>header = [], seq = [], qual = []\<rparr>)"
  proof (cases "buf_start (buffer r) < buf_end (buffer r)")
    case False
    then have "m' = m" "r' = r"
      using a by (simp_all add: read_buffer_empty_window)
    then show ?thesis using False by (simp add: read_buffer_empty_window)
  next
    case True
    then have "buffer_switch m r (rc\<lparr>header := [], seq := [], qual := []\<rparr>) = Inr (False, m', r', rc')"
      using a by (simp add: read_buffer_def)
    then obtain s where s: "stage_of (stage m) = Some s"
      by (cases "stage_of (stage m)") (simp_all add: buffer_switch_def)
    obtain n where "buffer_run s m r (Inr (False, m', r', rc')) n"
      using read_buffer_run[OF s, of r rc] a by auto
    then have "NL \<notin> set (unread (buffer r'))" "stage_of (stage m') = Some ((next_stage ^^ n) s)"
      by (simp_all add: buffer_run_def)
    then show ?thesis by (rule read_buffer_stalled)
  qed
qed

theorem read_buffer_incompletion_witness:
  "\<not> buf_start (buffer \<lparr>buffer = mk_buffer [], src = mk_source []\<rparr>)
       < buf_end (buffer \<lparr>buffer = mk_buffer [], src = mk_source []\<rparr>) \<and>
   read_buffer \<lparr>stage = stage_code HEADER, tmp = []\<rparr> \<lparr>buffer = mk_buffer [], src = mk_source []\<rparr>
     \<lparr>header = ''@r0'', seq = ''A'', qual = ''!''\<rparr>
   = Inr (False, \<lparr>stage = stage_code HEADER, tmp = []\<rparr>, \<lparr>buffer = mk_buffer [], src = mk_source []\<rparr>,
          \<lparr>header = [], seq = [], qual = []\<rparr>) \<and>
   read_buffer \<lparr>stage = stage_code HEADER, tmp = []\<rparr>
     \<lparr>buffer = mk_buffer (ln ''@r1'' @ ''ACG''), src = mk_source []\<rparr>
     \<lparr>header = [], seq = [], qual = []\<rparr>
   = Inr (False, \<lparr>stage = stage_code SEQ, tmp = []\<rparr>,
          \<lparr>buffer = \<lparr>data = ln ''@r1'' @ ''ACG'', buf_start = 4, buf_end = 7\<rparr>, src = mk_source []\<rparr>,
          \<lparr>header = ''@r1'', seq = [], qual = []\<rparr>) \<and>
   read_buffer \<lparr>stage = stage_code SEQ, tmp = []\<rparr>
     \<lparr>buffer = \<lparr>data = ln ''@r1'' @ ''ACG'', buf_start = 4, buf_end = 7\<rparr>, src = mk_source []\<rparr>
     \<lparr>header = ''@r1'', seq = [], qual = []\<rparr>
   = Inr (False, \<lparr>stage = stage_code SEQ, tmp = []\<rparr>,
          \<lparr>buffer = \<lparr>data = ln ''@r1'' @ ''ACG'', buf_start = 4, buf_end = 7\<rparr>, src = mk_source []\<rparr>,
          \<lparr>header = [], seq = [], qual = []\<rparr>)"
proof -
  have e: "read_buffer \<lparr>stage = stage_code HEADER, tmp = []\<rparr>
     \<lparr>buffer = mk_buffer (ln ''@r1'' @ ''ACG''), src = mk_source []\<rparr>
     \<lparr>header = [], seq = [], qual = []\<rparr>
   = Inr (False, \<lparr>stage = stage_code SEQ, tmp = []\<rparr>,
          \<lparr>buffer = \<lparr>data = ln ''@r1'' @ ''ACG'', buf_start = 4, buf_end = 7\<rparr>, src = mk_source []\<rparr>,
          \<lparr>header = ''@r1'', seq = [], qual = []\<rparr>)"
    by (simp add: read_buffer_def buffer_switch_def stage_of_def buffer_header_def buffer_seq_def
        readline_buffer_append_def unread_def mk_buffer_def ln_def Let_def)
  have n: "\<not> buf_start (buffer \<lparr>buffer = mk_buffer [], src = mk_source []\<rparr>)
       < buf_end (buffer \<lparr>buffer = mk_buffer [], src = mk_source []\<rparr>)"
    by (simp add: mk_buffer_def)
  show ?thesis
    using e n
      read_buffer_incompletion [of "\<lparr>buffer = mk_buffer [], src = mk_source []\<rparr>"
        "\<lparr>stage = stage_code HEADER, tmp = []\<rparr>" "\<lparr>header = ''@r0'', seq = ''A'', qual = ''!''\<rparr>"]
      read_buffer_incompletion [of "\<lparr>buffer = mk_buffer (ln ''@r1'' @ ''ACG''), src = mk_source []\<rparr>"
        "\<lparr>stage = stage_code HEADER, tmp = []\<rparr>" "\<lparr>header = [], seq = [], qual = []\<rparr>"
        "\<lparr>stage = stage_code SEQ, tmp = []\<rparr>"
        "\<lparr>buffer = \<lparr>data = ln ''@r1'' @ ''ACG'', buf_start = 4, buf_end = 7\<rparr>, src = mk_source []\<rparr>"
        "\<lparr>header = ''@r1'', seq = [], qual = []\<rparr>"]
    by simp
qed

section \<open>A whole record in the buffer\<close>

text \<open>
  C3: when the unread window of the buffer begins with the four lines of a record, each
  followed by its terminator, and the stage is Header, one call of \<open>read_buffer\<close>
  returns true, the record holds the header, sequence and quality lines without their
  terminators (whatever it held before), the separator line is discarded (the scratch
  accumulator is empty), the four lines are consumed from the window and the stage is
  Header again.
\<close>

theorem read_buffer_full_record:
  assumes nl: "NL \<notin> set l1" "NL \<notin> set l2" "NL \<notin> set l3" "NL \<notin> set l4"
    and st: "stage m = stage_code HEADER"
    and buf: "unread (buffer r) = ln l1 @ ln l2 @ ln l3 @ ln l4 @ rest"
  shows "read_buffer m r rc =
           Inr (True, m\<lparr>stage := stage_code HEADER, tmp := []\<rparr>,
                consume (length (ln l1 @ ln l2 @ ln l3 @ ln l4)) r,
                \<lparr>header = l1, seq = l2, qual = l4\<rparr>)"
proof -
  let ?r1 = "consume (length (ln l1)) r"
  let ?r2 = "consume (length (ln l2)) ?r1"
  let ?r3 = "consume (length (ln l3)) ?r2"
  have ne: "buf_start (buffer r) < buf_end (buffer r)"
    by (rule unread_nonempty) (simp add: buf ln_def)
  have u1: "unread (buffer ?r1) = ln l2 @ ln l3 @ ln l4 @ rest"
    using unread_ln[OF buf] by simp
  have u2: "unread (buffer ?r2) = ln l3 @ ln l4 @ rest"
    using unread_ln[OF u1] by simp
  have u3: "unread (buffer ?r3) = ln l4 @ rest"
    using unread_ln[OF u2] by simp
  let ?rc0 = "rc\<lparr>header := [], seq := [], qual := []\<rparr>"
  have "read_buffer m r rc = buffer_header m r ?rc0"
    using ne st by (simp add: read_buffer_def buffer_switch_def stage_of_def Let_def)
  also have "\<dots> = buffer_seq (m\<lparr>stage := stage_code SEQ\<rparr>) ?r1 (?rc0\<lparr>header := l1\<rparr>)"
    by (simp add: buffer_header_line[OF buf nl(1)])
  also have "\<dots> = buffer_sep (m\<lparr>stage := stage_code SEP\<rparr>) ?r2 (?rc0\<lparr>header := l1, seq := l2\<rparr>)"
    by (simp add: buffer_seq_line[OF u1 nl(2)])
  also have "\<dots> = buffer_qual (m\<lparr>stage := stage_code QUAL, tmp := []\<rparr>) ?r3 (?rc0\<lparr>header := l1, seq := l2\<rparr>)"
    by (simp add: buffer_sep_line[OF u2 nl(3)])
  also have "\<dots> = Inr (True, m\<lparr>stage := stage_code HEADER, tmp := []\<rparr>, consume (length (ln l4)) ?r3,
                         ?rc0\<lparr>header := l1, seq := l2, qual := l4\<rparr>)"
    by (simp add: buffer_qual_line[OF u3 nl(4)])
  finally show ?thesis
    by (simp add: consume_consume add.assoc)
qed

theorem read_buffer_full_record_witness:
  "read_buffer \<lparr>stage = 0, tmp = []\<rparr>
     \<lparr>buffer = mk_buffer (ln ''@r1'' @ ln ''ACGT'' @ ln ''+'' @ ln ''!!!!''), src = mk_source []\<rparr>
     \<lparr>header = [], seq = [], qual = []\<rparr>
   = Inr (True, \<lparr>stage = 0, tmp = []\<rparr>,
          \<lparr>buffer = \<lparr>data = ln ''@r1'' @ ln ''ACGT'' @ ln ''+'' @ ln ''!!!!'', buf_start = 16, buf_end = 16\<rparr>, src = mk_source []\<rparr>,
          \<lparr>header = ''@r1'', seq = ''ACGT'', qual = ''!!!!''\<rparr>)"
  using read_buffer_full_record [of "''@r1''" "''ACGT''" "''+''" "''!!!!''" "\<lparr>stage = 0, tmp = []\<rparr>"
      "\<lparr>buffer = mk_buffer (ln ''@r1'' @ ln ''ACGT'' @ ln ''+'' @ ln ''!!!!''), src = mk_source []\<rparr>" "[]"
      "\<lparr>header = [], seq = [], qual = []\<rparr>"]
  by (simp add: mk_buffer_def unread_def ln_def consume_def advance_def)

section \<open>A record split between the buffer and the stream\<close>

text \<open>
  C4: let the four lines of a record be free of terminators, the stage be Header, the
  unread window hold exactly the first \<open>k\<close> lines (\<open>k\<close> = 1, 2 or 3) and the stream,
  with no indicator set, continue with the other lines. Then \<open>read_buffer\<close> returns false
  with the stage \<open>k\<close> steps after Header and the first \<open>k\<close> informative lines in the
  record, \<open>read_transition\<close> called on what it left returns true with the stage at Header,
  and the record it leaves is the record that \<open>read_file\<close> leaves on a stream holding all
  four lines: header, sequence and quality line; both leave the same bytes in the stream.
\<close>

theorem split_record_equivalence:
  assumes nl: "NL \<notin> set hl" "NL \<notin> set sl" "NL \<notin> set pl" "NL \<notin> set ql"
    and k: "k \<in> {1, 2, 3}"
    and st: "stage m = stage_code HEADER"
    and buf: "unread (buffer r) = concat (map ln (take k [hl, sl, pl, ql]))"
    and str: "content (src r) = concat (map ln (drop k [hl, sl, pl, ql])) @ rest"
    and fl: "ferror (src r) = 0" "feof (src r) = 0"
    and whole: "content (src ru) = concat (map ln [hl, sl, pl, ql]) @ rest"
  shows "\<exists>m1 r1 rc1 m2 r2 m3 r3 final.
           read_buffer m r rc = Inr (False, m1, r1, rc1) \<and>
           stage m1 = stage_code ((next_stage ^^ k) HEADER) \<and>
           rc1 = \<lparr>header = hl, seq = (if 2 \<le> k then sl else []), qual = []\<rparr> \<and>
           read_transition m1 r1 rc1 = Inr (True, m2, r2, final) \<and>
           read_file mu ru rcu = Inr (True, m3, r3, final) \<and>
           final = \<lparr>header = hl, seq = sl, qual = ql\<rparr> \<and>
           stage m2 = stage_code HEADER \<and>
           content (src r2) = rest \<and> content (src r3) = rest"
proof -
  have w: "content (src ru) = ln hl @ ln sl @ ln pl @ ln ql @ rest"
    using whole by simp
  note f = read_file_lines[OF nl w, of mu rcu]
  consider "k = 1" | "k = 2" | "k = 3" using k by auto
  then show ?thesis
  proof cases
    case 1
    have b: "unread (buffer r) = ln hl" using buf 1 by simp
    have s: "content (src r) = ln sl @ ln pl @ ln ql @ rest" using str 1 by simp
    note a = split_after_header(1)[OF nl st b s fl, of rc] split_after_header(2)[OF nl st b s fl]
    show ?thesis
      apply (intro exI conjI)
              apply (rule a(1))
             apply (simp add: 1)
            apply (simp add: 1)
           apply (rule a(2))
          apply (rule f)
         apply simp_all
      done
  next
    case 2
    have b: "unread (buffer r) = ln hl @ ln sl" using buf 2 by simp
    have s: "content (src r) = ln pl @ ln ql @ rest" using str 2 by simp
    note a = split_after_seq(1)[OF nl st b s fl, of rc] split_after_seq(2)[OF nl st b s fl]
    show ?thesis
      apply (intro exI conjI)
              apply (rule a(1))
             apply (simp add: 2 eval_nat_numeral)
            apply (simp add: 2)
           apply (rule a(2))
          apply (rule f)
         apply simp_all
      done
  next
    case 3
    have b: "unread (buffer r) = ln hl @ ln sl @ ln pl" using buf 3 by simp
    have s: "content (src r) = ln ql @ rest" using str 3 by simp
    note a = split_after_sep(1)[OF nl st b s fl, of rc] split_after_sep(2)[OF nl st b s fl]
    show ?thesis
      apply (intro exI conjI)
              apply (rule a(1))
             apply (simp add: 3 eval_nat_numeral)
            apply (simp add: 3)
           apply (rule a(2))
          apply (rule f)
         apply simp_all
      done
  qed
qed


theorem split_record_equivalence_witness:
  "\<exists>m1 r1 rc1 m2 r2 m3 r3.
     read_buffer \<lparr>stage = stage_code HEADER, tmp = []\<rparr>
       \<lparr>buffer = mk_buffer (ln ''@r1'' @ ln ''ACGT''), src = mk_source (ln ''+'' @ ln ''!!!!'')\<rparr>
       \<lparr>header = [], seq = [], qual = []\<rparr> = Inr (False, m1, r1, rc1) \<and>
     stage m1 = stage_code SEP \<and>
     rc1 = \<lparr>header = ''@r1'', seq = ''ACGT'', qual = []\<rparr> \<and>
     read_transition m1 r1 rc1 =
       Inr (True, m2, r2, \<lparr>header = ''@r1'', seq = ''ACGT'', qual = ''!!!!''\<rparr>) \<and>
     read_file \<lparr>stage = stage_code HEADER, tmp = []\<rparr>
       \<lparr>buffer = mk_buffer [], src = mk_source (ln ''@r1'' @ ln ''ACGT'' @ ln ''+'' @ ln ''!!!!'')\<rparr>
       \<lparr>header = [], seq = [], qual = []\<rparr> =
       Inr (True, m3, r3, \<lparr>header = ''@r1'', seq = ''ACGT'', qual = ''!!!!''\<rparr>)"
proof -
  have k: "(2::nat) \<in> {1, 2, 3}" by simp
  have nl: "NL \<notin> set ''@r1''" "NL \<notin> set ''ACGT''" "NL \<notin> set ''+''" "NL \<notin> set ''!!!!''"
    by simp_all
  have st: "stage \<lparr>stage = stage_code HEADER, tmp = []\<rparr> = stage_code HEADER" by simp
  let ?r = "\<lparr>buffer = mk_buffer (ln ''@r1'' @ ln ''ACGT''), src = mk_source (ln ''+'' @ ln ''!!!!'')\<rparr>"
  let ?ru = "\<lparr>buffer = mk_buffer [], src = mk_source (ln ''@r1'' @ ln ''ACGT'' @ ln ''+'' @ ln ''!!!!'')\<rparr>"
  have buf: "unread (buffer ?r) = concat (map ln (take 2 [''@r1'', ''ACGT'', ''+'', ''!!!!'']))"
    by (simp add: unread_def mk_buffer_def)
  have str: "content (src ?r) = concat (map ln (drop 2 [''@r1'', ''ACGT'', ''+'', ''!!!!''])) @ []"
    by (simp add: mk_source_def)
  have fl: "ferror (src ?r) = 0" "feof (src ?r) = 0"
    by (simp_all add: ferror_def feof_def mk_source_def)
  have whole: "content (src ?ru) = concat (map ln [''@r1'', ''ACGT'', ''+'', ''!!!!'']) @ []"
    by (simp add: mk_source_def)
  have two: "(next_stage ^^ 2) HEADER = SEP" by (simp add: eval_nat_numeral)
  show ?thesis
    using split_record_equivalence [OF nl k st buf str fl whole,
        of "\<lparr>header = [], seq = [], qual = []\<rparr>" "\<lparr>stage = stage_code HEADER, tmp = []\<rparr>"
          "\<lparr>header = [], seq = [], qual = []\<rparr>"]
    unfolding two by auto
qed

section \<open>The probe of the boundary-transition strategy\<close>

text \<open>
  C5: \<open>read_transition\<close> reaches its stage switch exactly when the stream has neither its
  error nor its end-of-file indicator set and a byte is left to peek; the switch then runs
  on the reader as it was at entry, the peeked byte pushed back. In every other case it
  returns false with the parser state and the record as they were and no byte consumed; so
  it does on an exhausted stream with the stage at Header.
\<close>

theorem read_transition_probe:
  "(ferror (src r) = 0 \<and> feof (src r) = 0 \<and> content (src r) \<noteq> [] \<longrightarrow>
      read_transition m r rc = transition_switch m r rc) \<and>
   (\<not> (ferror (src r) = 0 \<and> feof (src r) = 0 \<and> content (src r) \<noteq> []) \<longrightarrow>
      (\<exists>r'. read_transition m r rc = Inr (False, m, r', rc) \<and> buffer r' = buffer r \<and>
            content (src r') = content (src r) \<and> err_flag (src r') = err_flag (src r))) \<and>
   (content (src r) = [] \<and> stage m = stage_code HEADER \<longrightarrow>
      (\<exists>r'. read_transition m r rc = Inr (False, m, r', rc)))"
proof (intro conjI impI)
  assume "ferror (src r) = 0 \<and> feof (src r) = 0 \<and> content (src r) \<noteq> []"
  then show "read_transition m r rc = transition_switch m r rc"
    by (intro read_transition_proceed) simp_all
next
  assume "\<not> (ferror (src r) = 0 \<and> feof (src r) = 0 \<and> content (src r) \<noteq> [])"
  then show "\<exists>r'. read_transition m r rc = Inr (False, m, r', rc) \<and> buffer r' = buffer r \<and>
            content (src r') = content (src r) \<and> err_flag (src r') = err_flag (src r)"
    by (rule read_transition_stop)
next
  assume "content (src r) = [] \<and> stage m = stage_code HEADER"
  then have "\<not> (ferror (src r) = 0 \<and> feof (src r) = 0 \<and> content (src r) \<noteq> [])"
    by simp
  from read_transition_stop[OF this, of m rc]
  show "\<exists>r'. read_transition m r rc = Inr (False, m, r', rc)"
    by blast
qed

theorem read_transition_probe_witness:
  "read_transition \<lparr>stage = stage_code HEADER, tmp = []\<rparr>
     \<lparr>buffer = mk_buffer [], src = mk_source []\<rparr> \<lparr>header = [], seq = [], qual = []\<rparr>
   = Inr (False, \<lparr>stage = stage_code HEADER, tmp = []\<rparr>,
          \<lparr>buffer = mk_buffer [], src = \<lparr>content = [], err_flag = False, eof_flag = True\<rparr>\<rparr>,
          \<lparr>header = [], seq = [], qual = []\<rparr>) \<and>
   read_transition \<lparr>stage = stage_code QUAL, tmp = []\<rparr>
     \<lparr>buffer = mk_buffer [], src = mk_source (ln ''!!!!'')\<rparr> \<lparr>header = ''@r1'', seq = ''ACGT'', qual = []\<rparr>
   = transition_switch \<lparr>stage = stage_code QUAL, tmp = []\<rparr>
     \<lparr>buffer = mk_buffer [], src = mk_source (ln ''!!!!'')\<rparr> \<lparr>header = ''@r1'', seq = ''ACGT'', qual = []\<rparr>"
  using read_transition_probe [of "\<lparr>buffer = mk_buffer [], src = mk_source []\<rparr>"
      "\<lparr>stage = stage_code HEADER, tmp = []\<rparr>" "\<lparr>header = [], seq = [], qual = []\<rparr>"]
    read_transition_probe [of "\<lparr>buffer = mk_buffer [], src = mk_source (ln ''!!!!'')\<rparr>"
      "\<lparr>stage = stage_code QUAL, tmp = []\<rparr>" "\<lparr>header = ''@r1'', seq = ''ACGT'', qual = []\<rparr>"]
  by (simp add: mk_source_def mk_buffer_def ferror_def feof_def ln_def read_transition_def fgetc_def)

section \<open>The scratch accumulator after a complete record\<close>

text \<open>
  C6, as stated, fails: \<open>read_file\<close> reads the separator line into \<open>tmp\<close> and does not
  clear it; after a successful call \<open>tmp\<close> holds the separator line.
\<close>

theorem read_file_scratch_counterexample:
  "read_file \<lparr>stage = stage_code HEADER, tmp = []\<rparr>
      \<lparr>buffer = mk_buffer [], src = mk_source (ln ''@r2'' @ ln ''TTTT'' @ ln ''+'' @ ln ''####'')\<rparr>
      \<lparr>header = [], seq = [], qual = []\<rparr>
   = Inr (True, \<lparr>stage = stage_code HEADER, tmp = ''+''\<rparr>,
          \<lparr>buffer = mk_buffer [], src = mk_source []\<rparr>,
          \<lparr>header = ''@r2'', seq = ''TTTT'', qual = ''####''\<rparr>)"
  by (simp add: read_file_def file_at_end_def readline_file_def stream_line_def mk_source_def ln_def)

text \<open>
  C6, amended: after a call of \<open>read_buffer\<close> or \<open>read_transition\<close> that returns true,
  \<open>tmp\<close> is empty when the call entered at Header, Sequence or Separator, and is what it
  was at entry when the call entered at Quality (so it is empty whenever it was empty at
  entry). After a call of \<open>read_file\<close> that returns true, \<open>tmp\<close> holds the third line
  read, the separator line.
\<close>

theorem scratch_after_success:
  "(read_buffer m r rc = Inr (True, m1, r1, rc1) \<longrightarrow>
      tmp m1 = (if stage m = stage_code QUAL then tmp m else [])) \<and>
   (read_transition m r rc = Inr (True, m2, r2, rc2) \<longrightarrow>
      tmp m2 = (if stage m = stage_code QUAL then tmp m else [])) \<and>
   (read_file m r rc = Inr (True, m3, r3, rc3) \<longrightarrow>
      tmp m3 = fst (stream_line (snd (stream_line (snd (stream_line (src r)))))))"
proof (intro conjI impI)
  assume a: "read_buffer m r rc = Inr (True, m1, r1, rc1)"
  have w: "buf_start (buffer r) < buf_end (buffer r)"
    using a by (cases "buf_start (buffer r) < buf_end (buffer r)") (simp_all add: read_buffer_empty_window)
  obtain s where s: "stage_of (stage m) = Some s"
    using a w by (cases "stage_of (stage m)") (simp_all add: read_buffer_invalid)
  have c: "stage m = stage_code s" using s by (rule stage_of_Some)
  obtain n where "buffer_run s m r (Inr (True, m1, r1, rc1)) n"
    using read_buffer_run[OF s, of r rc] a by auto
  then have "stage_index s + n = 4" "tmp m1 = (if s = QUAL \<or> stage_index s + n \<le> 2 then tmp m else [])"
    by (simp_all add: buffer_run_def)
  then show "tmp m1 = (if stage m = stage_code QUAL then tmp m else [])"
    using c by (cases s) simp_all
next
  assume a: "read_transition m r rc = Inr (True, m2, r2, rc2)"
  have p: "ferror (src r) = 0 \<and> feof (src r) = 0 \<and> content (src r) \<noteq> []"
  proof (rule ccontr)
    assume n: "\<not> ?thesis"
    show False using read_transition_stop[OF n, of m rc] a by auto
  qed
  then have e: "transition_switch m r rc = Inr (True, m2, r2, rc2)"
    using a by (simp add: read_transition_proceed)
  then obtain s where s: "stage_of (stage m) = Some s"
    by (cases "stage_of (stage m)") (simp_all add: transition_switch_invalid)
  have c: "stage m = stage_code s" using s by (rule stage_of_Some)
  show "tmp m2 = (if stage m = stage_code QUAL then tmp m else [])"
    using transition_switch_run[OF s, of r rc] e c by (cases s) auto
next
  assume "read_file m r rc = Inr (True, m3, r3, rc3)"
  then show "tmp m3 = fst (stream_line (snd (stream_line (snd (stream_line (src r))))))"
    by (auto simp: read_file_def readline_file_def split: if_splits prod.splits)
qed

theorem scratch_after_success_witness:
  "read_buffer \<lparr>stage = stage_code SEP, tmp = ''x''\<rparr>
     \<lparr>buffer = mk_buffer (ln ''+'' @ ln ''!!!!''), src = mk_source []\<rparr>
     \<lparr>header = [], seq = [], qual = []\<rparr>
   = Inr (True, \<lparr>stage = stage_code HEADER, tmp = []\<rparr>,
          \<lparr>buffer = \<lparr>data = ln ''+'' @ ln ''!!!!'', buf_start = 7, buf_end = 7\<rparr>, src = mk_source []\<rparr>,
          \<lparr>header = [], seq = [], qual = ''!!!!''\<rparr>) \<and>
   read_transition \<lparr>stage = stage_code QUAL, tmp = ''x''\<rparr>
     \<lparr>buffer = mk_buffer [], src = mk_source (ln ''!!!!'')\<rparr>
     \<lparr>header = ''@r1'', seq = ''ACGT'', qual = []\<rparr>
   = Inr (True, \<lparr>stage = stage_code HEADER, tmp = ''x''\<rparr>,
          \<lparr>buffer = mk_buffer [], src = mk_source []\<rparr>,
          \<lparr>header = ''@r1'', seq = ''ACGT'', qual = ''!!!!''\<rparr>) \<and>
   read_file \<lparr>stage = stage_code HEADER, tmp = []\<rparr>
     \<lparr>buffer = mk_buffer [], src = mk_source (ln ''@r3'' @ ln ''GG'' @ ln ''+r3'' @ ln ''##'')\<rparr>
     \<lparr>header = [], seq = [], qual = []\<rparr>
   = Inr (True, \<lparr>stage = stage_code HEADER, tmp = ''+r3''\<rparr>,
          \<lparr>buffer = mk_buffer [], src = mk_source []\<rparr>,
          \<lparr>header = ''@r3'', seq = ''GG'', qual = ''##''\<rparr>) \<and>
   tmp \<lparr>stage = stage_code HEADER, tmp = []\<rparr> = [] \<and>
   tmp \<lparr>stage = stage_code HEADER, tmp = ''x''\<rparr> = ''x'' \<and>
   tmp \<lparr>stage = stage_code HEADER, tmp = ''+r3''\<rparr> = ''+r3''"
proof -
  have b: "read_buffer \<lparr>stage = stage_code SEP, tmp = ''x''\<rparr>
     \<lparr>buffer = mk_buffer (ln ''+'' @ ln ''!!!!''), src = mk_source []\<rparr>
     \<lparr>header = [], seq = [], qual = []\<rparr>
   = Inr (True, \<lparr>stage = stage_code HEADER, tmp = []\<rparr>,
          \<lparr>buffer = \<lparr>data = ln ''+'' @ ln ''!!!!'', buf_start = 7, buf_end = 7\<rparr>, src = mk_source []\<rparr>,
          \<lparr>header = [], seq = [], qual = ''!!!!''\<rparr>)"
    by (simp add: read_buffer_def buffer_switch_def stage_of_def buffer_sep_def
      buffer_qual_def readline_buffer_append_def unread_def mk_buffer_def ln_def Let_def)
  have t: "read_transition \<lparr>stage = stage_code QUAL, tmp = ''x''\<rparr>
     \<lparr>buffer = mk_buffer [], src = mk_source (ln ''!!!!'')\<rparr>
     \<lparr>header = ''@r1'', seq = ''ACGT'', qual = []\<rparr>
   = Inr (True, \<lparr>stage = stage_code HEADER, tmp = ''x''\<rparr>,
          \<lparr>buffer = mk_buffer [], src = mk_source []\<rparr>,
          \<lparr>header = ''@r1'', seq = ''ACGT'', qual = ''!!!!''\<rparr>)"
    by (simp add: read_transition_def ferror_def feof_def fgetc_def ungetc_def
        transition_switch_def stage_of_def transition_qual_def readline_file_append_def
        stream_line_def mk_source_def ln_def)
  have f: "read_file \<lparr>stage = stage_code HEADER, tmp = []\<rparr>
     \<lparr>buffer = mk_buffer [], src = mk_source (ln ''@r3'' @ ln ''GG'' @ ln ''+r3'' @ ln ''##'')\<rparr>
     \<lparr>header = [], seq = [], qual = []\<rparr>
   = Inr (True, \<lparr>stage = stage_code HEADER, tmp = ''+r3''\<rparr>,
          \<lparr>buffer = mk_buffer [], src = mk_source []\<rparr>,
          \<lparr>header = ''@r3'', seq = ''GG'', qual = ''##''\<rparr>)"
    by (simp add: read_file_def file_at_end_def readline_file_def stream_line_def mk_source_def ln_def)
  show ?thesis
    using b t f
      scratch_after_success [of "\<lparr>stage = stage_code SEP, tmp = ''x''\<rparr>"
        "\<lparr>buffer = mk_buffer (ln ''+'' @ ln ''!!!!''), src = mk_source []\<rparr>"
        "\<lparr>header = [], seq = [], qual = []\<rparr>" "\<lparr>stage = stage_code HEADER, tmp = []\<rparr>"]
      scratch_after_success [of _ _ _ _ _ _ "\<lparr>stage = stage_code QUAL, tmp = ''x''\<rparr>"
        "\<lparr>buffer = mk_buffer [], src = mk_source (ln ''!!!!'')\<rparr>"
        "\<lparr>header = ''@r1'', seq = ''ACGT'', qual = []\<rparr>"]
    by simp
qed

section \<open>The stage cycle\<close>

text \<open>
  C7, as stated, fails for \<open>read_transition\<close>: entered at Separator on a stream that holds
  the separator line and nothing more, it reads that one line, yet moves the stage two
  steps, wraps it to Header and returns true; no Quality line was read. The stream line
  reads return nothing that is checked.
\<close>

theorem read_transition_truncated_counterexample:
  "read_transition \<lparr>stage = stage_code SEP, tmp = []\<rparr>
     \<lparr>buffer = mk_buffer [], src = mk_source (ln ''+'')\<rparr>
     \<lparr>header = ''@r1'', seq = ''ACGT'', qual = []\<rparr>
   = Inr (True, \<lparr>stage = stage_code HEADER, tmp = []\<rparr>,
          \<lparr>buffer = mk_buffer [], src = \<lparr>content = [], err_flag = False, eof_flag = True\<rparr>\<rparr>,
          \<lparr>header = ''@r1'', seq = ''ACGT'', qual = []\<rparr>) \<and>
   nlines (ln ''+'') = 1 \<and> (next_stage ^^ 1) SEP = QUAL \<and> QUAL \<noteq> HEADER"
  by (simp add: read_transition_def ferror_def feof_def fgetc_def ungetc_def
        transition_switch_def stage_of_def transition_sep_def transition_qual_def
        readline_file_append_def stream_line_def mk_source_def ln_def nlines_def)

text \<open>
  C7, amended: from a valid stage \<open>s\<close>, \<open>read_buffer\<close> always returns; it reads \<open>n\<close>
  lines from the window, as many as the window holds but none past the Quality line, and
  moves the stage \<open>n\<close> steps in the cyclic order; it returns true exactly when the Quality
  line was read, the stage is then Header, and when it returns false the stage has not
  wrapped. \<open>read_transition\<close>, once the probe finds a byte, returns true: it has performed
  the line reads of all stages from \<open>s\<close> to Quality on the stream, one stage step for each
  read whether or not the stream still held a line, and the stage is Header. When the
  probe finds an indicator set or no byte, it returns false with the parser state and the
  record unchanged and nothing consumed.
\<close>

theorem stage_cycle:
  "stage_of (stage m) = Some s \<longrightarrow>
     (\<exists>ok m' r' rc' n.
        read_buffer m r rc = Inr (ok, m', r', rc') \<and>
        n = min (4 - stage_index s) (nlines (unread (buffer r))) \<and>
        nlines (unread (buffer r)) = nlines (unread (buffer r')) + n \<and>
        stage_of (stage m') = Some ((next_stage ^^ n) s) \<and>
        (ok \<longleftrightarrow> stage_index s + n = 4) \<and>
        (ok \<longrightarrow> stage m' = stage_code HEADER) \<and>
        (\<not> ok \<longrightarrow> stage_index ((next_stage ^^ n) s) = stage_index s + n)) \<and>
     (ferror (src r) = 0 \<and> feof (src r) = 0 \<and> content (src r) \<noteq> [] \<longrightarrow>
        (\<exists>m2 r2 rc2. read_transition m r rc = Inr (True, m2, r2, rc2) \<and>
           stage_of (stage m2) = Some ((next_stage ^^ (4 - stage_index s)) s) \<and>
           stage m2 = stage_code HEADER \<and>
           src r2 = stream_reads (4 - stage_index s) (src r))) \<and>
     (\<not> (ferror (src r) = 0 \<and> feof (src r) = 0 \<and> content (src r) \<noteq> []) \<longrightarrow>
        (\<exists>r2. read_transition m r rc = Inr (False, m, r2, rc) \<and>
           content (src r2) = content (src r)))"
proof (intro impI conjI)
  assume "stage_of (stage m) = Some s"
  then show "\<exists>ok m' r' rc' n.
        read_buffer m r rc = Inr (ok, m', r', rc') \<and>
        n = min (4 - stage_index s) (nlines (unread (buffer r))) \<and>
        nlines (unread (buffer r)) = nlines (unread (buffer r')) + n \<and>
        stage_of (stage m') = Some ((next_stage ^^ n) s) \<and>
        (ok \<longleftrightarrow> stage_index s + n = 4) \<and>
        (ok \<longrightarrow> stage m' = stage_code HEADER) \<and>
        (\<not> ok \<longrightarrow> stage_index ((next_stage ^^ n) s) = stage_index s + n)"
    by (rule read_buffer_count)
next
  assume "stage_of (stage m) = Some s"
    and "ferror (src r) = 0 \<and> feof (src r) = 0 \<and> content (src r) \<noteq> []"
  then show "\<exists>m2 r2 rc2. read_transition m r rc = Inr (True, m2, r2, rc2) \<and>
           stage_of (stage m2) = Some ((next_stage ^^ (4 - stage_index s)) s) \<and>
           stage m2 = stage_code HEADER \<and>
           src r2 = stream_reads (4 - stage_index s) (src r)"
    by (rule read_transition_count)
next
  assume "\<not> (ferror (src r) = 0 \<and> feof (src r) = 0 \<and> content (src r) \<noteq> [])"
  from read_transition_stop[OF this, of m rc]
  show "\<exists>r2. read_transition m r rc = Inr (False, m, r2, rc) \<and>
           content (src r2) = content (src r)"
    by blast
qed

theorem stage_cycle_witness:
  "stage_of (stage \<lparr>stage = stage_code HEADER, tmp = []\<rparr>) = Some HEADER \<and>
   read_buffer \<lparr>stage = stage_code HEADER, tmp = []\<rparr>
     \<lparr>buffer = mk_buffer (ln ''@r1'' @ ''ACG''), src = mk_source []\<rparr>
     \<lparr>header = [], seq = [], qual = []\<rparr>
   = Inr (False, \<lparr>stage = stage_code SEQ, tmp = []\<rparr>,
          \<lparr>buffer = \<lparr>data = ln ''@r1'' @ ''ACG'', buf_start = 4, buf_end = 7\<rparr>, src = mk_source []\<rparr>,
          \<lparr>header = ''@r1'', seq = [], qual = []\<rparr>) \<and>
   (\<exists>ok m' r' rc' n.
      read_buffer \<lparr>stage = stage_code HEADER, tmp = []\<rparr>
        \<lparr>buffer = mk_buffer (ln ''@r1'' @ ''ACG''), src = mk_source []\<rparr>
        \<lparr>header = [], seq = [], qual = []\<rparr> = Inr (ok, m', r', rc') \<and>
      n = min (4 - stage_index HEADER) (nlines (unread (mk_buffer (ln ''@r1'' @ ''ACG'')))) \<and>
      stage_of (stage m') = Some ((next_stage ^^ n) HEADER) \<and>
      (ok \<longleftrightarrow> stage_index HEADER + n = 4)) \<and>
   min (4 - stage_index HEADER) (nlines (unread (mk_buffer (ln ''@r1'' @ ''ACG'')))) = 1 \<and>
   stage_of (stage \<lparr>stage = stage_code SEQ, tmp = []\<rparr>) = Some SEQ \<and>
   (ferror (mk_source (ln ''ACGT'' @ ln ''+'' @ ln ''!!!!'')) = 0 \<and>
    feof (mk_source (ln ''ACGT'' @ ln ''+'' @ ln ''!!!!'')) = 0 \<and>
    content (mk_source (ln ''ACGT'' @ ln ''+'' @ ln ''!!!!'')) \<noteq> []) \<and>
   (\<exists>m2 r2 rc2.
      read_transition \<lparr>stage = stage_code SEQ, tmp = []\<rparr>
        \<lparr>buffer = mk_buffer [], src = mk_source (ln ''ACGT'' @ ln ''+'' @ ln ''!!!!'')\<rparr>
        \<lparr>header = ''@r1'', seq = [], qual = []\<rparr> = Inr (True, m2, r2, rc2) \<and>
      stage m2 = stage_code HEADER \<and>
      src r2 = stream_reads (4 - stage_index SEQ) (mk_source (ln ''ACGT'' @ ln ''+'' @ ln ''!!!!''))) \<and>
   stream_reads (4 - stage_index SEQ) (mk_source (ln ''ACGT'' @ ln ''+'' @ ln ''!!!!'')) = mk_source [] \<and>
   \<not> (ferror (mk_source []) = 0 \<and> feof (mk_source []) = 0 \<and> content (mk_source []) \<noteq> []) \<and>
   (\<exists>r2.
      read_transition \<lparr>stage = stage_code SEQ, tmp = []\<rparr> \<lparr>buffer = mk_buffer [], src = mk_source []\<rparr>
        \<lparr>header = ''@r1'', seq = [], qual = []\<rparr>
      = Inr (False, \<lparr>stage = stage_code SEQ, tmp = []\<rparr>, r2, \<lparr>header = ''@r1'', seq = [], qual = []\<rparr>))"
proof -
  let ?m = "\<lparr>stage = stage_code HEADER, tmp = []\<rparr>"
  let ?r = "\<lparr>buffer = mk_buffer (ln ''@r1'' @ ''ACG''), src = mk_source []\<rparr>"
  let ?rc = "\<lparr>header = [], seq = [], qual = []\<rparr>"
  let ?m' = "\<lparr>stage = stage_code SEQ, tmp = []\<rparr>"
  let ?r' = "\<lparr>buffer = \<lparr>data = ln ''@r1'' @ ''ACG'', buf_start = 4, buf_end = 7\<rparr>, src = mk_source []\<rparr>"
  let ?rc' = "\<lparr>header = ''@r1'', seq = [], qual = []\<rparr>"
  let ?t = "\<lparr>buffer = mk_buffer [], src = mk_source (ln ''ACGT'' @ ln ''+'' @ ln ''!!!!'')\<rparr>"
  let ?e = "\<lparr>buffer = mk_buffer [], src = mk_source []\<rparr>"
  have h1: "stage_of (stage ?m) = Some HEADER" "stage_of (stage ?m') = Some SEQ"
    by (simp_all add: stage_of_def)
  have h2: "read_buffer ?m ?r ?rc = Inr (False, ?m', ?r', ?rc')"
    by (simp add: read_buffer_def buffer_switch_def stage_of_def buffer_header_def buffer_seq_def
        readline_buffer_append_def unread_def mk_buffer_def ln_def Let_def)
  have n1: "min (4 - stage_index HEADER) (nlines (unread (mk_buffer (ln ''@r1'' @ ''ACG'')))) = 1"
    by (simp add: nlines_def unread_def mk_buffer_def ln_def)
  have p: "ferror (src ?t) = 0 \<and> feof (src ?t) = 0 \<and> content (src ?t) \<noteq> []"
    by (simp add: ferror_def feof_def mk_source_def ln_def)
  have q: "\<not> (ferror (src ?e) = 0 \<and> feof (src ?e) = 0 \<and> content (src ?e) \<noteq> [])"
    by (simp add: mk_source_def)
  have sr: "stream_reads (4 - stage_index SEQ) (mk_source (ln ''ACGT'' @ ln ''+'' @ ln ''!!!!'')) = mk_source []"
    by (simp add: stream_reads_def eval_nat_numeral stream_line_def mk_source_def ln_def)
  have c1: "\<exists>ok m' r' rc' n.
      read_buffer ?m ?r ?rc = Inr (ok, m', r', rc') \<and>
      n = min (4 - stage_index HEADER) (nlines (unread (buffer ?r))) \<and>
      stage_of (stage m') = Some ((next_stage ^^ n) HEADER) \<and>
      (ok \<longleftrightarrow> stage_index HEADER + n = 4)"
    using stage_cycle [of ?m HEADER ?r ?rc] h1(1) by blast
  have c2: "\<exists>m2 r2 rc2. read_transition ?m' ?t ?rc' = Inr (True, m2, r2, rc2) \<and>
      stage m2 = stage_code HEADER \<and> src r2 = stream_reads (4 - stage_index SEQ) (src ?t)"
    using stage_cycle [of ?m' SEQ ?t ?rc'] h1(2) p by blast
  have c3: "\<exists>r2. read_transition ?m' ?e ?rc' = Inr (False, ?m', r2, ?rc')"
    using stage_cycle [of ?m' SEQ ?e ?rc'] h1(2) q by blast
  have b: "buffer ?r = mk_buffer (ln ''@r1'' @ ''ACG'')" "src ?t = mk_source (ln ''ACGT'' @ ln ''+'' @ ln ''!!!!'')"
    "src ?e = mk_source []"
    by simp_all
  show ?thesis
    using h1 h2 n1 p q sr c1 c2 c3 unfolding b by blast
qed

section \<open>Stage values outside the enumeration\<close>

text \<open>
  C8, as stated, fails: with a stage value that is none of the four enumerators and no
  unread byte in the window, \<open>read_buffer\<close> returns false; the \<open>default\<close> branch sits
  inside the \<open>if\<close> and is not reached.
\<close>

theorem invalid_stage_counterexample:
  "stage_of 7 = None \<and>
   read_buffer \<lparr>stage = 7, tmp = []\<rparr> \<lparr>buffer = mk_buffer [], src = mk_source []\<rparr>
     \<lparr>header = [], seq = [], qual = []\<rparr>
   = Inr (False, \<lparr>stage = 7, tmp = []\<rparr>, \<lparr>buffer = mk_buffer [], src = mk_source []\<rparr>,
          \<lparr>header = [], seq = [], qual = []\<rparr>)"
  by (simp add: stage_of_def read_buffer_def mk_buffer_def)

text \<open>
  C8, amended: with a stage value that is none of the four enumerators, \<open>read_buffer\<close>
  ends the process when the window has an unread byte, and \<open>read_transition\<close> ends the
  process when the stream has no indicator set and a byte to peek. When that guard fails,
  each returns false whatever the stage value is, valid or not: \<open>read_buffer\<close> with the
  parser state and the reader unchanged and the record cleared, \<open>read_transition\<close> with
  the parser state and the record unchanged and nothing consumed. From a stage value that
  is one of the four enumerators neither call ends the process, and the stage value it
  leaves is again one of the four.
\<close>

theorem invalid_stage_abort:
  "(stage_of (stage m) = None \<and> buf_start (buffer r) < buf_end (buffer r) \<longrightarrow>
      read_buffer m r rc = Inl InvalidState) \<and>
   (stage_of (stage m) = None \<and> ferror (src r) = 0 \<and> feof (src r) = 0 \<and> content (src r) \<noteq> [] \<longrightarrow>
      read_transition m r rc = Inl InvalidState) \<and>
   (\<not> buf_start (buffer r) < buf_end (buffer r) \<longrightarrow>
      read_buffer m r rc = Inr (False, m, r, \<lparr>header = [], seq = [], qual = []\<rparr>)) \<and>
   (\<not> (ferror (src r) = 0 \<and> feof (src r) = 0 \<and> content (src r) \<noteq> []) \<longrightarrow>
      (\<exists>r'. read_transition m r rc = Inr (False, m, r', rc) \<and> buffer r' = buffer r \<and>
            content (src r') = content (src r) \<and> err_flag (src r') = err_flag (src r))) \<and>
   (stage_of (stage m) \<noteq> None \<longrightarrow>
      (\<exists>ok m' r' rc'. read_buffer m r rc = Inr (ok, m', r', rc') \<and> stage_of (stage m') \<noteq> None) \<and>
      (\<exists>ok m' r' rc'. read_transition m r rc = Inr (ok, m', r', rc') \<and> stage_of (stage m') \<noteq> None))"
proof (intro conjI impI)
  assume "stage_of (stage m) = None \<and> buf_start (buffer r) < buf_end (buffer r)"
  then show "read_buffer m r rc = Inl InvalidState"
    by (simp add: read_buffer_invalid)
next
  assume "stage_of (stage m) = None \<and> ferror (src r) = 0 \<and> feof (src r) = 0 \<and> content (src r) \<noteq> []"
  then show "read_transition m r rc = Inl InvalidState"
    by (simp add: read_transition_proceed transition_switch_invalid)
next
  assume "\<not> buf_start (buffer r) < buf_end (buffer r)"
  then show "read_buffer m r rc = Inr (False, m, r, \<lparr>header = [], seq = [], qual = []\<rparr>)"
    by (rule read_buffer_empty_window)
next
  assume "\<not> (ferror (src r) = 0 \<and> feof (src r) = 0 \<and> content (src r) \<noteq> [])"
  then show "\<exists>r'. read_transition m r rc = Inr (False, m, r', rc) \<and> buffer r' = buffer r \<and>
            content (src r') = content (src r) \<and> err_flag (src r') = err_flag (src r)"
    by (rule read_transition_stop)
next
  assume "stage_of (stage m) \<noteq> None"
  then obtain s where s: "stage_of (stage m) = Some s" by auto
  obtain n where "buffer_run s m r (read_buffer m r rc) n"
    using read_buffer_run[OF s] by blast
  then show "\<exists>ok m' r' rc'. read_buffer m r rc = Inr (ok, m', r', rc') \<and> stage_of (stage m') \<noteq> None"
    by (auto simp: buffer_run_def)
next
  assume "stage_of (stage m) \<noteq> None"
  then obtain s where s: "stage_of (stage m) = Some s" by auto
  show "\<exists>ok m' r' rc'. read_transition m r rc = Inr (ok, m', r', rc') \<and> stage_of (stage m') \<noteq> None"
  proof (cases "ferror (src r) = 0 \<and> feof (src r) = 0 \<and> content (src r) \<noteq> []")
    case True
    from read_transition_count[OF s True, of rc] show ?thesis
      by (metis option.distinct(1))
  next
    case False
    then show ?thesis
      using read_transition_stop[OF False, of m rc] s by auto
  qed
qed

theorem invalid_stage_abort_witness:
  "stage_of 7 = None \<and> stage_of 9 = None \<and> stage_of (stage_code SEP) \<noteq> None \<and>
   read_buffer \<lparr>stage = 7, tmp = []\<rparr> \<lparr>buffer = mk_buffer (ln ''@r1''), src = mk_source []\<rparr>
     \<lparr>header = [], seq = [], qual = []\<rparr> = Inl InvalidState \<and>
   read_transition \<lparr>stage = 7, tmp = []\<rparr> \<lparr>buffer = mk_buffer [], src = mk_source (ln ''@r1'')\<rparr>
     \<lparr>header = [], seq = [], qual = []\<rparr> = Inl InvalidState \<and>
   read_buffer \<lparr>stage = 9, tmp = []\<rparr>
     \<lparr>buffer = \<lparr>data = ln ''@r1'', buf_start = 4, buf_end = 4\<rparr>, src = mk_source []\<rparr>
     \<lparr>header = ''@r1'', seq = [], qual = []\<rparr>
   = Inr (False, \<lparr>stage = 9, tmp = []\<rparr>,
          \<lparr>buffer = \<lparr>data = ln ''@r1'', buf_start = 4, buf_end = 4\<rparr>, src = mk_source []\<rparr>,
          \<lparr>header = [], seq = [], qual = []\<rparr>) \<and>
   (\<exists>r'. read_transition \<lparr>stage = 9, tmp = []\<rparr> \<lparr>buffer = mk_buffer [], src = mk_source []\<rparr>
           \<lparr>header = ''@r1'', seq = [], qual = []\<rparr>
         = Inr (False, \<lparr>stage = 9, tmp = []\<rparr>, r', \<lparr>header = ''@r1'', seq = [], qual = []\<rparr>)) \<and>
   (\<exists>ok m' r' rc'.
      read_buffer \<lparr>stage = stage_code SEP, tmp = []\<rparr> \<lparr>buffer = mk_buffer (ln ''+''), src = mk_source []\<rparr>
        \<lparr>header = [], seq = [], qual = []\<rparr> = Inr (ok, m', r', rc') \<and> stage_of (stage m') \<noteq> None) \<and>
   (\<exists>ok m' r' rc'.
      read_transition \<lparr>stage = stage_code SEP, tmp = []\<rparr> \<lparr>buffer = mk_buffer (ln ''+''), src = mk_source []\<rparr>
        \<lparr>header = [], seq = [], qual = []\<rparr> = Inr (ok, m', r', rc') \<and> stage_of (stage m') \<noteq> None)"
proof -
  let ?rc = "\<lparr>header = [], seq = [], qual = []\<rparr>"
  let ?rh = "\<lparr>header = ''@r1'', seq = [], qual = []\<rparr>"
  let ?w = "\<lparr>buffer = \<lparr>data = ln ''@r1'', buf_start = 4, buf_end = 4\<rparr>, src = mk_source []\<rparr>"
  let ?e = "\<lparr>buffer = mk_buffer [], src = mk_source []\<rparr>"
  have i: "stage_of 7 = None" "stage_of 9 = None" "stage_of (stage_code SEP) \<noteq> None"
    by (simp_all add: stage_of_def)
  have g1: "stage_of (stage \<lparr>stage = 7, tmp = []\<rparr>) = None \<and>
      buf_start (buffer \<lparr>buffer = mk_buffer (ln ''@r1''), src = mk_source []\<rparr>)
        < buf_end (buffer \<lparr>buffer = mk_buffer (ln ''@r1''), src = mk_source []\<rparr>)"
    using i by (simp add: mk_buffer_def ln_def)
  have g2: "stage_of (stage \<lparr>stage = 7, tmp = []\<rparr>) = None \<and>
      ferror (src \<lparr>buffer = mk_buffer [], src = mk_source (ln ''@r1'')\<rparr>) = 0 \<and>
      feof (src \<lparr>buffer = mk_buffer [], src = mk_source (ln ''@r1'')\<rparr>) = 0 \<and>
      content (src \<lparr>buffer = mk_buffer [], src = mk_source (ln ''@r1'')\<rparr>) \<noteq> []"
    using i by (simp add: mk_source_def ferror_def feof_def ln_def)
  have g3: "\<not> buf_start (buffer ?w) < buf_end (buffer ?w)" by simp
  have g4: "\<not> (ferror (src ?e) = 0 \<and> feof (src ?e) = 0 \<and> content (src ?e) \<noteq> [])"
    by (simp add: mk_source_def)
  have g5: "stage_of (stage \<lparr>stage = stage_code SEP, tmp = []\<rparr>) \<noteq> None"
    using i by simp
  have c1: "read_buffer \<lparr>stage = 7, tmp = []\<rparr> \<lparr>buffer = mk_buffer (ln ''@r1''), src = mk_source []\<rparr> ?rc
      = Inl InvalidState"
    using invalid_stage_abort [of "\<lparr>stage = 7, tmp = []\<rparr>"
        "\<lparr>buffer = mk_buffer (ln ''@r1''), src = mk_source []\<rparr>" ?rc] g1 by blast
  have c2: "read_transition \<lparr>stage = 7, tmp = []\<rparr> \<lparr>buffer = mk_buffer [], src = mk_source (ln ''@r1'')\<rparr> ?rc
      = Inl InvalidState"
    using invalid_stage_abort [of "\<lparr>stage = 7, tmp = []\<rparr>"
        "\<lparr>buffer = mk_buffer [], src = mk_source (ln ''@r1'')\<rparr>" ?rc] g2 by blast
  have c3: "read_buffer \<lparr>stage = 9, tmp = []\<rparr> ?w ?rh = Inr (False, \<lparr>stage = 9, tmp = []\<rparr>, ?w, ?rc)"
    using invalid_stage_abort [of "\<lparr>stage = 9, tmp = []\<rparr>" ?w ?rh] g3 by blast
  have c4: "\<exists>r'. read_transition \<lparr>stage = 9, tmp = []\<rparr> ?e ?rh = Inr (False, \<lparr>stage = 9, tmp = []\<rparr>, r', ?rh)"
    using invalid_stage_abort [of "\<lparr>stage = 9, tmp = []\<rparr>" ?e ?rh] g4 by blast
  have c5: "(\<exists>ok m' r' rc'.
      read_buffer \<lparr>stage = stage_code SEP, tmp = []\<rparr> \<lparr>buffer = mk_buffer (ln ''+''), src = mk_source []\<rparr> ?rc
        = Inr (ok, m', r', rc') \<and> stage_of (stage m') \<noteq> None) \<and>
     (\<exists>ok m' r' rc'.
      read_transition \<lparr>stage = stage_code SEP, tmp = []\<rparr> \<lparr>buffer = mk_buffer (ln ''+''), src = mk_source []\<rparr> ?rc
        = Inr (ok, m', r', rc') \<and> stage_of (stage m') \<noteq> None)"
    using invalid_stage_abort [of "\<lparr>stage = stage_code SEP, tmp = []\<rparr>"
        "\<lparr>buffer = mk_buffer (ln ''+''), src = mk_source []\<rparr>" ?rc] g5 by blast
  show ?thesis
    using i c1 c2 c3 c4 c5 by blast
qed

section \<open>The direct strategy\<close>

text \<open>
  C9: \<open>read_file\<close> returns false exactly when the stream holds no more bytes at entry, and
  then changes nothing. Otherwise it returns true after four line reads from the stream, in
  the order header, sequence, separator (into the scratch accumulator), quality, whatever
  the stage and the record were; on a stream that begins with the four lines of a record
  the fields are those lines.
\<close>

theorem read_file_direct:
  "((\<exists>m' r' rc'. read_file m r rc = Inr (False, m', r', rc')) \<longleftrightarrow> content (src r) = []) \<and>
   (content (src r) = [] \<longrightarrow> read_file m r rc = Inr (False, m, r, rc)) \<and>
   (content (src r) \<noteq> [] \<longrightarrow>
      read_file m r rc =
        Inr (True,
             m\<lparr>tmp := fst (stream_line (snd (stream_line (snd (stream_line (src r))))))\<rparr>,
             r\<lparr>src := snd (stream_line (snd (stream_line (snd (stream_line (snd (stream_line (src r))))))))\<rparr>,
             \<lparr>header = fst (stream_line (src r)),
              seq = fst (stream_line (snd (stream_line (src r)))),
              qual = fst (stream_line (snd (stream_line (snd (stream_line (snd (stream_line (src r))))))))\<rparr>)) \<and>
   (NL \<notin> set l1 \<and> NL \<notin> set l2 \<and> NL \<notin> set l3 \<and> NL \<notin> set l4 \<and>
    content (src r) = ln l1 @ ln l2 @ ln l3 @ ln l4 @ rest \<longrightarrow>
      read_file m r rc =
        Inr (True, m\<lparr>tmp := l3\<rparr>, r\<lparr>src := (src r)\<lparr>content := rest\<rparr>\<rparr>,
             \<lparr>header = l1, seq = l2, qual = l4\<rparr>))"
proof (intro conjI impI)
  show "(\<exists>m' r' rc'. read_file m r rc = Inr (False, m', r', rc')) \<longleftrightarrow> content (src r) = []"
    by (simp add: read_file_def file_at_end_def split: prod.splits)
next
  assume "content (src r) = []"
  then show "read_file m r rc = Inr (False, m, r, rc)"
    by (simp add: read_file_def file_at_end_def)
next
  assume "content (src r) \<noteq> []"
  then show "read_file m r rc =
        Inr (True,
             m\<lparr>tmp := fst (stream_line (snd (stream_line (snd (stream_line (src r))))))\<rparr>,
             r\<lparr>src := snd (stream_line (snd (stream_line (snd (stream_line (snd (stream_line (src r))))))))\<rparr>,
             \<lparr>header = fst (stream_line (src r)),
              seq = fst (stream_line (snd (stream_line (src r)))),
              qual = fst (stream_line (snd (stream_line (snd (stream_line (snd (stream_line (src r))))))))\<rparr>)"
    by (simp add: read_file_def file_at_end_def readline_file_def split: prod.splits)
next
  assume "NL \<notin> set l1 \<and> NL \<notin> set l2 \<and> NL \<notin> set l3 \<and> NL \<notin> set l4 \<and>
    content (src r) = ln l1 @ ln l2 @ ln l3 @ ln l4 @ rest"
  then show "read_file m r rc =
        Inr (True, m\<lparr>tmp := l3\<rparr>, r\<lparr>src := (src r)\<lparr>content := rest\<rparr>\<rparr>,
             \<lparr>header = l1, seq = l2, qual = l4\<rparr>)"
    by (intro read_file_lines) simp_all
qed

theorem read_file_direct_witness:
  "content (src \<lparr>buffer = mk_buffer [], src = mk_source (ln ''@r2'' @ ln ''TTTT'' @ ln ''+'' @ ln ''####'')\<rparr>) \<noteq> [] \<and>
   read_file \<lparr>stage = stage_code SEP, tmp = []\<rparr>
      \<lparr>buffer = mk_buffer [], src = mk_source (ln ''@r2'' @ ln ''TTTT'' @ ln ''+'' @ ln ''####'')\<rparr>
      \<lparr>header = ''@r1'', seq = ''ACGT'', qual = []\<rparr>
   = Inr (True, \<lparr>stage = stage_code SEP, tmp = ''+''\<rparr>,
          \<lparr>buffer = mk_buffer [], src = mk_source []\<rparr>,
          \<lparr>header = ''@r2'', seq = ''TTTT'', qual = ''####''\<rparr>) \<and>
   content (src \<lparr>buffer = mk_buffer [], src = mk_source []\<rparr>) = [] \<and>
   read_file \<lparr>stage = stage_code SEP, tmp = []\<rparr> \<lparr>buffer = mk_buffer [], src = mk_source []\<rparr>
      \<lparr>header = ''@r1'', seq = ''ACGT'', qual = []\<rparr>
   = Inr (False, \<lparr>stage = stage_code SEP, tmp = []\<rparr>, \<lparr>buffer = mk_buffer [], src = mk_source []\<rparr>,
          \<lparr>header = ''@r1'', seq = ''ACGT'', qual = []\<rparr>)"
proof -
  let ?m = "\<lparr>stage = stage_code SEP, tmp = []\<rparr>"
  let ?r = "\<lparr>buffer = mk_buffer [], src = mk_source (ln ''@r2'' @ ln ''TTTT'' @ ln ''+'' @ ln ''####'')\<rparr>"
  let ?e = "\<lparr>buffer = mk_buffer [], src = mk_source []\<rparr>"
  let ?rc = "\<lparr>header = ''@r1'', seq = ''ACGT'', qual = []\<rparr>"
  have a: "NL \<notin> set ''@r2'' \<and> NL \<notin> set ''TTTT'' \<and> NL \<notin> set ''+'' \<and> NL \<notin> set ''####'' \<and>
      content (src ?r) = ln ''@r2'' @ ln ''TTTT'' @ ln ''+'' @ ln ''####'' @ []"
    by (simp add: mk_source_def)
  have b: "content (src ?e) = []"
    by (simp add: mk_source_def)
  have n: "content (src ?r) \<noteq> []"
    by (simp add: mk_source_def ln_def)
  from read_file_direct [of ?m ?r ?rc "''@r2''" "''TTTT''" "''+''" "''####''" "[]"] a
  have r1: "read_file ?m ?r ?rc =
      Inr (True, ?m\<lparr>tmp := ''+''\<rparr>, ?r\<lparr>src := (src ?r)\<lparr>content := []\<rparr>\<rparr>,
           \<lparr>header = ''@r2'', seq = ''TTTT'', qual = ''####''\<rparr>)"
    by blast
  from read_file_direct [of ?m ?e ?rc] b
  have r2: "read_file ?m ?e ?rc = Inr (False, ?m, ?e, ?rc)"
    by blast
  show ?thesis
    using n b r1 r2 by (simp add: mk_source_def)
qed

section \<open>The direct strategy leaves the stage alone\<close>

text \<open>
  C10: a call of \<open>read_file\<close> always returns (it never ends the process), the stage
  after the call is the stage before it, and the stage is not read either: the same call
  with any other stage value returns the same flag, scratch, reader and record.
\<close>

theorem read_file_stage_untouched:
  "\<exists>ok m' r' rc'. read_file m r rc = Inr (ok, m', r', rc') \<and> stage m' = stage m \<and>
      read_file (m\<lparr>stage := v\<rparr>) r rc = Inr (ok, m'\<lparr>stage := v\<rparr>, r', rc')"
  by (auto simp: read_file_def readline_file_def split: prod.splits)

end
